theory Spec2Isabelle
  imports Complex_Main "HOL-Library.AList"
begin

section \<open>Errors, panics and the outcome of a call\<close>

text \<open>
  The binder of \<^verbatim>\<open>providers/httpserver/data_bind.go\<close> works on Go values through
  reflection. A call either returns \<^verbatim>\<open>nil\<close>, returns an error, or panics; in each
  case the mutations made so far stay in the target, so every function of the model
  returns the new value together with an outcome.
\<close>

datatype num_err = ErrSyntax | ErrRange

datatype error =
    ErrNotStruct \<comment> \<open>\<^verbatim>\<open>errors.New("binding element must be a struct")\<close>\<close>
  | ErrUnknownType \<comment> \<open>\<^verbatim>\<open>errors.New("unknown type")\<close>\<close>
  | NumError string string num_err \<comment> \<open>\<^verbatim>\<open>*strconv.NumError{Func, Num, Err}\<close>\<close>
  | UserError string \<comment> \<open>an error returned by a type's own unmarshal method or a decoder\<close>
  | ReadError error \<comment> \<open>\<^verbatim>\<open>fmt.Errorf("fail to read body: %s", err)\<close>\<close>
  | HTTPError nat "error option" \<comment> \<open>\<^verbatim>\<open>echo.NewHTTPError(code, ...).SetInternal(err)\<close>\<close>

text \<open>
  The text of the two errors the binder makes itself with \<^verbatim>\<open>errors.New\<close>; the text of
  the other errors is made by the libraries and is not modelled.
\<close>

fun message :: "error \<Rightarrow> string option" where
  "message ErrNotStruct = Some ''binding element must be a struct''"
| "message ErrUnknownType = Some ''unknown type''"
| "message e = None"

datatype panic =
    IndexOutOfRange \<comment> \<open>\<^verbatim>\<open>v[0]\<close> on an empty slice\<close>
  | NilMap \<comment> \<open>\<^verbatim>\<open>assignment to entry in nil map\<close>\<close>
  | NotAssignable \<comment> \<open>reflect: value of type string is not assignable to the map's type\<close>
  | NilType \<comment> \<open>\<^verbatim>\<open>reflect.TypeOf(nil).Kind()\<close>\<close>
  | IllTyped \<comment> \<open>a value that does not have the shape of its type; Go's type system excludes it\<close>

datatype outcome = Ok | Err error | Panic panic

section \<open>Go types and values as reflection sees them\<close>

datatype kind =
    KInvalid | KBool
  | KInt | KInt8 | KInt16 | KInt32 | KInt64
  | KUint | KUint8 | KUint16 | KUint32 | KUint64 | KUintptr
  | KFloat32 | KFloat64 | KComplex64 | KComplex128
  | KArray | KChan | KFunc | KInterface | KMap | KPtr | KSlice | KString | KStruct
  | KUnsafePointer

text \<open>
  Values. A non-nil pointer owns its pointee (the binder never aliases), a nil pointer,
  slice, map or interface is \<open>VNil\<close>, and an interface value is modelled by the value
  it holds. Floating-point values are a type parameter \<open>'f\<close>: the model never
  computes with them, it only stores what \<^verbatim>\<open>strconv.ParseFloat\<close> returns.
\<close>

datatype 'f gval =
    VBool bool
  | VInt int
  | VUint nat
  | VFloat 'f
  | VString string
  | VNil
  | VPtr "'f gval"
  | VSlice "'f gval list"
  | VMap "('f gval \<times> 'f gval) list"
  | VStruct "'f gval list"
  | VOpaque

text \<open>
  What a type brings besides its shape: whether it is a defined (named) type, and which
  of the two unmarshal methods the method set of a pointer to it holds
  (\<^verbatim>\<open>echo.BindUnmarshaler\<close>: \<^verbatim>\<open>UnmarshalParam(string) error\<close>,
  \<^verbatim>\<open>encoding.TextUnmarshaler\<close>: \<^verbatim>\<open>UnmarshalText([]byte) error\<close>). A method gets
  the text and the receiver's value and returns the receiver's new value and its error.
\<close>

type_synonym 'f unmarshaler = "string \<Rightarrow> 'f gval \<Rightarrow> 'f gval \<times> error option"

record 'f tinfo =
  defined :: bool
  UnmarshalParam :: "'f unmarshaler option"
  UnmarshalText :: "'f unmarshaler option"

text \<open>
  A struct field as \<^verbatim>\<open>reflect.StructField\<close> gives it: its name, its tag (already split
  into key and text, which is what \<^verbatim>\<open>Tag.Get\<close> reads) and whether it is exported.
\<close>

record field_decl =
  Name :: string
  Tag :: "(string \<times> string) list"
  Exported :: bool

datatype 'f gotype =
    TBasic "'f tinfo" kind
  | TInterface "'f tinfo" nat \<comment> \<open>the number of methods the interface asks for\<close>
  | TPtr "'f tinfo" "'f gotype"
  | TSlice "'f tinfo" "'f gotype"
  | TMap "'f tinfo" "'f gotype" "'f gotype"
  | TStruct "'f tinfo" "(field_decl \<times> 'f gotype) list"

definition plain :: "'f tinfo" where
  "plain = \<lparr>defined = False, UnmarshalParam = None, UnmarshalText = None\<rparr>"

fun info :: "'f gotype \<Rightarrow> 'f tinfo" where
  "info (TBasic i k) = i"
| "info (TInterface i n) = i"
| "info (TPtr i t) = i"
| "info (TSlice i t) = i"
| "info (TMap i kt et) = i"
| "info (TStruct i fs) = i"

text \<open>
  \<^verbatim>\<open>Type.Kind()\<close>. \<open>TBasic\<close> stands for the types without structure the binder looks
  into (booleans, numbers, strings, and arrays, channels, functions and the like, which
  it rejects); a structured kind written there is read as Invalid.
\<close>

fun Kind :: "'f gotype \<Rightarrow> kind" where
  "Kind (TBasic i k) =
     (if k = KInterface \<or> k = KMap \<or> k = KPtr \<or> k = KSlice \<or> k = KStruct then KInvalid else k)"
| "Kind (TInterface i n) = KInterface"
| "Kind (TPtr i t) = KPtr"
| "Kind (TSlice i t) = KSlice"
| "Kind (TMap i kt et) = KMap"
| "Kind (TStruct i fs) = KStruct"

text \<open>The zero value of a type: \<^verbatim>\<open>reflect.New(t).Elem()\<close>, an element of \<^verbatim>\<open>reflect.MakeSlice\<close>.\<close>

fun Zero :: "'f::zero gotype \<Rightarrow> 'f gval"
  and Zero_fields :: "(field_decl \<times> 'f gotype) list \<Rightarrow> 'f gval list" where
  "Zero (TBasic i k) =
     (if k = KBool then VBool False
      else if k = KInt \<or> k = KInt8 \<or> k = KInt16 \<or> k = KInt32 \<or> k = KInt64 then VInt 0
      else if k = KUint \<or> k = KUint8 \<or> k = KUint16 \<or> k = KUint32 \<or> k = KUint64 then VUint 0
      else if k = KFloat32 \<or> k = KFloat64 then VFloat 0
      else if k = KString then VString []
      else VOpaque)"
| "Zero (TInterface i n) = VNil"
| "Zero (TPtr i t) = VNil"
| "Zero (TSlice i t) = VNil"
| "Zero (TMap i kt et) = VNil"
| "Zero (TStruct i fs) = VStruct (Zero_fields fs)"
| "Zero_fields [] = []"
| "Zero_fields ((fd, t) # fs) = Zero t # Zero_fields fs"

section \<open>The library functions the binder calls\<close>

text \<open>
  \<^verbatim>\<open>strconv.ParseUint(s, 10, bitSize)\<close>, \<^verbatim>\<open>strconv.ParseInt(s, 10, bitSize)\<close> and
  \<^verbatim>\<open>strconv.ParseBool\<close> as Go's library defines them for base 10 (the only base the
  binder asks for) and the bit sizes 0, 8, 16, 32 and 64 it passes. Bit size 0 is the
  size of \<^verbatim>\<open>int\<close>, 64 on the platforms the repository targets.
\<close>

definition IntSize :: nat where
  "IntSize = 64"

definition digit :: "char \<Rightarrow> nat option" where
  "digit c = (let b = (of_char c :: nat) in if 48 \<le> b \<and> b \<le> 57 then Some (b - 48) else None)"

text \<open>The digit loop of \<^verbatim>\<open>ParseUint\<close>: \<open>n\<close> is the number read so far.\<close>

fun parse_digits :: "nat \<Rightarrow> nat \<Rightarrow> string \<Rightarrow> num_err + nat" where
  "parse_digits maxVal n [] = Inr n"
| "parse_digits maxVal n (c # cs) =
     (case digit c of
        None \<Rightarrow> Inl ErrSyntax
      | Some d \<Rightarrow>
          if n \<ge> (2 ^ 64 - 1) div 10 + 1 then Inl ErrRange
          else let n1 = n * 10 + d in
            if n1 \<ge> 2 ^ 64 \<or> n1 > maxVal then Inl ErrRange
            else parse_digits maxVal n1 cs)"

definition ParseUint :: "string \<Rightarrow> nat \<Rightarrow> error + nat" where
  "ParseUint s bitSize =
     (if s = [] then Inl (NumError ''ParseUint'' s ErrSyntax)
      else let bits = (if bitSize = 0 then IntSize else bitSize) in
        case parse_digits (2 ^ bits - 1) 0 s of
          Inl e \<Rightarrow> Inl (NumError ''ParseUint'' s e)
        | Inr n \<Rightarrow> Inr n)"

definition ParseInt :: "string \<Rightarrow> nat \<Rightarrow> error + int" where
  "ParseInt s bitSize =
     (if s = [] then Inl (NumError ''ParseInt'' s ErrSyntax)
      else let neg = (hd s = CHR ''-'');
               s1 = (if hd s = CHR ''+'' \<or> hd s = CHR ''-'' then tl s else s);
               bits = (if bitSize = 0 then IntSize else bitSize);
               cutoff = 2 ^ (bits - 1)
        in case ParseUint s1 bitSize of
             Inl (NumError f n ErrRange) \<Rightarrow> Inl (NumError ''ParseInt'' s ErrRange)
           | Inl e \<Rightarrow> Inl (NumError ''ParseInt'' s ErrSyntax)
           | Inr un \<Rightarrow>
               if \<not> neg \<and> un \<ge> cutoff then Inl (NumError ''ParseInt'' s ErrRange)
               else if neg \<and> un > cutoff then Inl (NumError ''ParseInt'' s ErrRange)
               else Inr (if neg then - int un else int un))"

definition ParseBool :: "string \<Rightarrow> error + bool" where
  "ParseBool s =
     (if s \<in> set [''1'', ''t'', ''T'', ''TRUE'', ''true'', ''True''] then Inr True
      else if s \<in> set [''0'', ''f'', ''F'', ''FALSE'', ''false'', ''False''] then Inr False
      else Inl (NumError ''ParseBool'' s ErrSyntax))"

text \<open>
  A binding target as the binder receives it in an \<^verbatim>\<open>interface{}\<close>: \<open>None\<close> is the nil
  interface, \<open>Some (t, v)\<close> a non-nil pointer to the value \<open>v\<close> of type \<open>t\<close>.
\<close>

type_synonym 'f target = "('f gotype \<times> 'f gval) option"

text \<open>
  The library functions that the model takes as they are, as parameters:
  \<^verbatim>\<open>strings.EqualFold\<close> (Unicode case folding), \<^verbatim>\<open>strconv.ParseFloat\<close> (floating
  point), and the two full-body decoders \<^verbatim>\<open>json.Unmarshal\<close> and \<^verbatim>\<open>xml.Unmarshal\<close>,
  which get the body and the target and return the target as they leave it.
\<close>

record 'f lib =
  EqualFold :: "string \<Rightarrow> string \<Rightarrow> bool"
  ParseFloat :: "string \<Rightarrow> nat \<Rightarrow> error + 'f"
  json_Unmarshal :: "string \<Rightarrow> 'f target \<Rightarrow> 'f target \<times> error option"
  xml_Unmarshal :: "string \<Rightarrow> 'f target \<Rightarrow> 'f target \<times> error option"

section \<open>Scalar coercion\<close>

definition setIntField :: "string \<Rightarrow> nat \<Rightarrow> 'f gval \<Rightarrow> 'f gval \<times> outcome" where
  "setIntField val bitSize field =
     (let val = (if val = [] then ''0'' else val) in
      case ParseInt val bitSize of
        Inr intVal \<Rightarrow> (VInt intVal, Ok)
      | Inl err \<Rightarrow> (field, Err err))"

definition setUintField :: "string \<Rightarrow> nat \<Rightarrow> 'f gval \<Rightarrow> 'f gval \<times> outcome" where
  "setUintField val bitSize field =
     (let val = (if val = [] then ''0'' else val) in
      case ParseUint val bitSize of
        Inr uintVal \<Rightarrow> (VUint uintVal, Ok)
      | Inl err \<Rightarrow> (field, Err err))"

definition setBoolField :: "string \<Rightarrow> 'f gval \<Rightarrow> 'f gval \<times> outcome" where
  "setBoolField val field =
     (let val = (if val = [] then ''false'' else val) in
      case ParseBool val of
        Inr boolVal \<Rightarrow> (VBool boolVal, Ok)
      | Inl err \<Rightarrow> (field, Err err))"

definition setFloatField :: "'f lib \<Rightarrow> string \<Rightarrow> nat \<Rightarrow> 'f gval \<Rightarrow> 'f gval \<times> outcome" where
  "setFloatField L val bitSize field =
     (let val = (if val = [] then ''0.0'' else val) in
      case ParseFloat L val bitSize of
        Inr floatVal \<Rightarrow> (VFloat floatVal, Ok)
      | Inl err \<Rightarrow> (field, Err err))"

section \<open>Custom-unmarshal dispatch\<close>

text \<open>
  The method set of \<^verbatim>\<open>*T\<close>, which \<^verbatim>\<open>field.Addr().Interface()\<close> is asked for. Go lets
  no method be declared on a type whose underlying type is a pointer or an interface, so
  a pointer to one has none.
\<close>

definition addr_methods :: "'f gotype \<Rightarrow> 'f tinfo" where
  "addr_methods t = (if Kind t = KPtr \<or> Kind t = KInterface then plain else info t)"

text \<open>
  The three functions return whether the field was claimed, the field's value afterwards,
  and the error of the method that claimed it.
\<close>

definition outcome_of :: "error option \<Rightarrow> outcome" where
  "outcome_of err = (case err of None \<Rightarrow> Ok | Some e \<Rightarrow> Err e)"

definition unmarshalFieldNonPtr ::
  "string \<Rightarrow> 'f gotype \<Rightarrow> 'f gval \<Rightarrow> bool \<times> 'f gval \<times> outcome" where
  "unmarshalFieldNonPtr val t field =
     (case UnmarshalParam (addr_methods t) of
        Some unmarshaler \<Rightarrow>
          (case unmarshaler val field of (field', err) \<Rightarrow> (True, field', outcome_of err))
      | None \<Rightarrow>
          (case UnmarshalText (addr_methods t) of
             Some unmarshaler \<Rightarrow>
               (case unmarshaler val field of (field', err) \<Rightarrow> (True, field', outcome_of err))
           | None \<Rightarrow> (False, field, Ok)))"

definition unmarshalFieldPtr ::
  "string \<Rightarrow> 'f::zero gotype \<Rightarrow> 'f gval \<Rightarrow> bool \<times> 'f gval \<times> outcome" where
  "unmarshalFieldPtr val t field =
     (case t of
        TPtr i et \<Rightarrow>
          (case (if field = VNil then VPtr (Zero et) else field) of
             VPtr p \<Rightarrow>
               (case unmarshalFieldNonPtr val et p of
                  (ok, p', r) \<Rightarrow> (ok, VPtr p', r))
           | _ \<Rightarrow> (False, field, Panic IllTyped))
      | _ \<Rightarrow> (False, field, Panic IllTyped))"

definition unmarshalField ::
  "kind \<Rightarrow> string \<Rightarrow> 'f::zero gotype \<Rightarrow> 'f gval \<Rightarrow> bool \<times> 'f gval \<times> outcome" where
  "unmarshalField valueKind val t field =
     (if valueKind = KPtr then unmarshalFieldPtr val t field
      else unmarshalFieldNonPtr val t field)"

text \<open>
  \<^verbatim>\<open>setWithProperType(valueKind, val, structField)\<close>: the field is given as its type and
  its value, and the value it has afterwards is returned with the error.
\<close>

function setWithProperType ::
  "'f::zero lib \<Rightarrow> kind \<Rightarrow> string \<Rightarrow> 'f gotype \<Rightarrow> 'f gval \<Rightarrow> 'f gval \<times> outcome" where
  "setWithProperType L valueKind val t structField =
     (case unmarshalField valueKind val t structField of
        (True, field, r) \<Rightarrow> (field, r)
      | (False, field, Panic p) \<Rightarrow> (field, Panic p)
      | (False, field, _) \<Rightarrow>
          (case valueKind of
             KPtr \<Rightarrow>
               (case (t, field) of
                  (TPtr i et, VPtr p) \<Rightarrow>
                    (case setWithProperType L (Kind et) val et p of
                       (p', r) \<Rightarrow> (VPtr p', r))
                | _ \<Rightarrow> (field, Panic IllTyped))
           | KInt \<Rightarrow> setIntField val 0 field
           | KInt8 \<Rightarrow> setIntField val 8 field
           | KInt16 \<Rightarrow> setIntField val 16 field
           | KInt32 \<Rightarrow> setIntField val 32 field
           | KInt64 \<Rightarrow> setIntField val 64 field
           | KUint \<Rightarrow> setUintField val 0 field
           | KUint8 \<Rightarrow> setUintField val 8 field
           | KUint16 \<Rightarrow> setUintField val 16 field
           | KUint32 \<Rightarrow> setUintField val 32 field
           | KUint64 \<Rightarrow> setUintField val 64 field
           | KBool \<Rightarrow> setBoolField val field
           | KFloat32 \<Rightarrow> setFloatField L val 32 field
           | KFloat64 \<Rightarrow> setFloatField L val 64 field
           | KString \<Rightarrow> (VString val, Ok)
           | _ \<Rightarrow> (field, Err ErrUnknownType)))"
  by pat_completeness auto
termination
  by (relation "measure (\<lambda>(L, valueKind, val, t, structField). size t)") auto

section \<open>The structural field binder\<close>

text \<open>
  The source map \<^verbatim>\<open>map[string][]string\<close> is an association list: \<open>map_of\<close> is the
  lookup \<^verbatim>\<open>data[name]\<close>, and the order of the list is the order in which
  \<^verbatim>\<open>range data\<close> happens to visit the entries, which Go does not fix. A Go map holds
  every key once.
\<close>

type_synonym data = "(string \<times> string list) list"

definition Tag_Get :: "(string \<times> string) list \<Rightarrow> string \<Rightarrow> string" where
  "Tag_Get tags key = (case map_of tags key of Some text \<Rightarrow> text | None \<Rightarrow> [])"

text \<open>Lines 129 to 142: the exact lookup, then the case-insensitive search.\<close>

definition lookupInput :: "'f lib \<Rightarrow> data \<Rightarrow> string \<Rightarrow> string list option" where
  "lookupInput L data inputFieldName =
     (case map_of data inputFieldName of
        Some inputValue \<Rightarrow> Some inputValue
      | None \<Rightarrow>
          (case find (\<lambda>(k, v). EqualFold L k inputFieldName) data of
             Some (k, v) \<Rightarrow> Some v
           | None \<Rightarrow> None))"

text \<open>
  Lines 159 to 164: the elements of the fresh slice, each coerced from its string. The
  list returned is the slice as the loop leaves it.
\<close>

fun setSliceElems :: "'f::zero lib \<Rightarrow> 'f gotype \<Rightarrow> string list \<Rightarrow> 'f gval list \<times> outcome" where
  "setSliceElems L et [] = ([], Ok)"
| "setSliceElems L et (s # ss) =
     (case setWithProperType L (Kind et) s et (Zero et) of
        (e, Ok) \<Rightarrow> (case setSliceElems L et ss of (es, r) \<Rightarrow> (e # es, r))
      | (e, r) \<Rightarrow> (e # map (\<lambda>s. Zero et) ss, r))"

text \<open>
  Lines 129 to 169, the loop body of \<^verbatim>\<open>bindData\<close> once the field's input name is
  known. Outcome \<open>Ok\<close> is \<^verbatim>\<open>continue\<close>, \<open>Err\<close> is \<^verbatim>\<open>return err\<close>.
\<close>

definition bindField ::
  "'f::zero lib \<Rightarrow> string \<Rightarrow> 'f gotype \<Rightarrow> 'f gval \<Rightarrow> data \<Rightarrow> 'f gval \<times> outcome" where
  "bindField L inputFieldName t structField data =
     (case lookupInput L data inputFieldName of
        None \<Rightarrow> (structField, Ok)
      | Some inputValue \<Rightarrow>
          (case inputValue of
             [] \<Rightarrow> (structField, Panic IndexOutOfRange)
           | v0 # vs \<Rightarrow>
               (case unmarshalField (Kind t) v0 t structField of
                  (True, field, r) \<Rightarrow> (field, r)
                | (False, field, Panic p) \<Rightarrow> (field, Panic p)
                | (False, field, _) \<Rightarrow>
                    if Kind t = KSlice \<and> length inputValue > 0 then
                      (case t of
                         TSlice i et \<Rightarrow>
                           (case setSliceElems L et inputValue of
                              (slice, Ok) \<Rightarrow> (VSlice slice, Ok)
                            | (slice, r) \<Rightarrow> (field, r))
                       | _ \<Rightarrow> (field, Panic IllTyped))
                    else setWithProperType L (Kind t) v0 t field)))"

text \<open>
  \<^verbatim>\<open>reflect.Value.SetMapIndex\<close> with a string key and a string element: reflection
  panics unless a string can be assigned to the map's key type and to its element type
  (the type \<^verbatim>\<open>string\<close> itself, or an interface without methods), and the assignment
  panics on a nil map.
\<close>

definition accepts_string :: "'f gotype \<Rightarrow> bool" where
  "accepts_string t =
     (case t of
        TBasic i k \<Rightarrow> k = KString \<and> \<not> defined i
      | TInterface i n \<Rightarrow> n = 0
      | _ \<Rightarrow> False)"

definition SetMapIndex ::
  "'f gotype \<Rightarrow> 'f gotype \<Rightarrow> 'f gval \<Rightarrow> string \<Rightarrow> string \<Rightarrow> 'f gval \<times> outcome" where
  "SetMapIndex kt et m key elem =
     (if \<not> accepts_string kt \<or> \<not> accepts_string et then (m, Panic NotAssignable)
      else case m of
             VNil \<Rightarrow> (m, Panic NilMap)
           | VMap kvs \<Rightarrow> (VMap (AList.update (VString key) (VString elem) kvs), Ok)
           | _ \<Rightarrow> (m, Panic IllTyped))"

text \<open>Lines 98 to 100: the loop over the source map when the target is a map.\<close>

fun bindMap :: "'f gotype \<Rightarrow> 'f gotype \<Rightarrow> 'f gval \<Rightarrow> data \<Rightarrow> 'f gval \<times> outcome" where
  "bindMap kt et m [] = (m, Ok)"
| "bindMap kt et m ((k, v) # rest) =
     (case v of
        [] \<Rightarrow> (m, Panic IndexOutOfRange)
      | v0 # vs \<Rightarrow>
          (case SetMapIndex kt et m k v0 of
             (m', Ok) \<Rightarrow> bindMap kt et m' rest
           | (m', r) \<Rightarrow> (m', r)))"

text \<open>
  \<^verbatim>\<open>bindData(ptr, data, tag)\<close> and its loop over the fields of a struct
  (\<open>bindFields\<close>: the fields still to visit, with their values). A field that cannot be
  set is one that is not exported.
\<close>

function bindData :: "'f::zero lib \<Rightarrow> 'f target \<Rightarrow> data \<Rightarrow> string \<Rightarrow> 'f target \<times> outcome"
  and bindFields ::
    "'f lib \<Rightarrow> (field_decl \<times> 'f gotype) list \<Rightarrow> 'f gval list \<Rightarrow> data \<Rightarrow> string
      \<Rightarrow> 'f gval list \<times> outcome" where
  "bindData L ptr data tag =
     (case ptr of
        None \<Rightarrow> (ptr, Ok)
      | Some (t, v) \<Rightarrow>
          if data = [] then (ptr, Ok)
          else
            (case t of
               TMap i kt et \<Rightarrow>
                 (case bindMap kt et v data of (v', r) \<Rightarrow> (Some (t, v'), r))
             | TStruct i fs \<Rightarrow>
                 (case v of
                    VStruct vs \<Rightarrow>
                      (case bindFields L fs vs data tag of
                         (vs', r) \<Rightarrow> (Some (t, VStruct vs'), r))
                  | _ \<Rightarrow> (ptr, Panic IllTyped))
             | _ \<Rightarrow> (ptr, Err ErrNotStruct)))"
| "bindFields L [] vs data tag = (vs, Ok)"
| "bindFields L ((fd, t) # fs) [] data tag = ([], Panic IllTyped)"
| "bindFields L ((fd, t) # fs) (structField # vs) data tag =
     (if \<not> Exported fd then
        (case bindFields L fs vs data tag of (vs', r) \<Rightarrow> (structField # vs', r))
      else
        let inputFieldName = Tag_Get (Tag fd) tag in
        if inputFieldName = [] \<and> UnmarshalParam (addr_methods t) = None \<and> Kind t = KStruct
        then
          (case bindData L (Some (t, structField)) data tag of
             (Some (t', field), Ok) \<Rightarrow>
               (case bindFields L fs vs data tag of (vs', r) \<Rightarrow> (field # vs', r))
           | (Some (t', field), r) \<Rightarrow> (field # vs, r)
           | (None, r) \<Rightarrow> (structField # vs, r))
        else
          (case bindField L (if inputFieldName = [] then Name fd else inputFieldName)
                  t structField data of
             (field, Ok) \<Rightarrow>
               (case bindFields L fs vs data tag of (vs', r) \<Rightarrow> (field # vs', r))
           | (field, r) \<Rightarrow> (field # vs, r)))"
  by pat_completeness auto
termination
  by (relation "measure (\<lambda>x. case x of
         Inl (L, ptr, data, tag) \<Rightarrow> (case ptr of None \<Rightarrow> 0 | Some (t, v) \<Rightarrow> size t)
       | Inr (L, fs, vs, data, tag) \<Rightarrow> size_list (size_prod (\<lambda>fd. 0) size) fs)") auto

section \<open>The content router\<close>

text \<open>
  Modelled from the spec: the constants of \<^verbatim>\<open>echo\<close> and \<^verbatim>\<open>net/http\<close> that \<^verbatim>\<open>Bind\<close>
  names, which are not part of the repository: the JSON, XML (and text/xml), form and
  multipart-form MIME types, the client error (HTTP 400) and the unsupported-media-type
  failure (HTTP 415), which carries no inner error.
\<close>

definition MIMEApplicationJSON :: string where
  "MIMEApplicationJSON = ''application/json''"

definition MIMEApplicationXML :: string where
  "MIMEApplicationXML = ''application/xml''"

definition MIMETextXML :: string where
  "MIMETextXML = ''text/xml''"

definition MIMEApplicationForm :: string where
  "MIMEApplicationForm = ''application/x-www-form-urlencoded''"

definition MIMEMultipartForm :: string where
  "MIMEMultipartForm = ''multipart/form-data''"

definition StatusBadRequest :: nat where
  "StatusBadRequest = 400"

definition ErrUnsupportedMediaType :: error where
  "ErrUnsupportedMediaType = HTTPError 415 None"

definition HasPrefix :: "string \<Rightarrow> string \<Rightarrow> bool" where
  "HasPrefix s p = (take (length p) s = p)"

text \<open>
  What \<^verbatim>\<open>Bind\<close> reads from the \<^verbatim>\<open>echo.Context\<close>: the request's content length and
  content-type header, what reading the body gives, and the form, query and path
  parameters. Putting the read body back into the request is not modelled.
\<close>

record request =
  ContentLength :: int
  HeaderContentType :: string
  Body :: "error + string"
  FormParams :: "error + data"
  QueryParams :: data
  ParamNames :: "string list"
  ParamValues :: "string list"

text \<open>Lines 69 to 71: \<^verbatim>\<open>for typ.Kind() == reflect.Ptr { typ = typ.Elem() }\<close>.\<close>

fun deref :: "'f gotype \<Rightarrow> 'f gotype" where
  "deref (TPtr i t) = deref t"
| "deref t = t"

text \<open>
  Lines 78 to 81: the map of the path parameters; \<open>None\<close> when \<^verbatim>\<open>values[i]\<close> is out
  of range.
\<close>

fun pathParams :: "string list \<Rightarrow> string list \<Rightarrow> data \<Rightarrow> data option" where
  "pathParams [] values params = Some params"
| "pathParams (name # names) [] params = None"
| "pathParams (name # names) (v # values) params =
     pathParams names values (AList.update name [v] params)"

text \<open>Lines 68 to 86: the query and path parameters, bound when the target is a struct.\<close>

definition bindParams :: "'f::zero lib \<Rightarrow> 'f target \<Rightarrow> request \<Rightarrow> 'f target \<times> outcome" where
  "bindParams L i req =
     (case i of
        None \<Rightarrow> (i, Panic NilType)
      | Some (t, v) \<Rightarrow>
          if Kind (deref t) = KStruct then
            (case bindData L i (QueryParams req) ''query'' of
               (i', Err err) \<Rightarrow> (i', Err (HTTPError StatusBadRequest (Some err)))
             | (i', Panic p) \<Rightarrow> (i', Panic p)
             | (i', Ok) \<Rightarrow>
                 (case pathParams (ParamNames req) (ParamValues req) [] of
                    None \<Rightarrow> (i', Panic IndexOutOfRange)
                  | Some params \<Rightarrow>
                      (case bindData L i' params ''param'' of
                         (i'', Err err) \<Rightarrow> (i'', Err (HTTPError StatusBadRequest (Some err)))
                       | (i'', r) \<Rightarrow> (i'', r))))
          else (i, Ok))"

text \<open>\<^verbatim>\<open>Bind(i, c)\<close>: lines 26 to 67 decode the body, then the parameters are bound.\<close>

definition Bind :: "'f::zero lib \<Rightarrow> 'f target \<Rightarrow> request \<Rightarrow> 'f target \<times> outcome" where
  "Bind L i req =
     (if ContentLength req > 0 then
        let ctype = (if length (HeaderContentType req) \<le> 0 then MIMEApplicationJSON
                     else HeaderContentType req)
        in case Body req of
             Inl err \<Rightarrow> (i, Err (ReadError err))
           | Inr body \<Rightarrow>
               if HasPrefix ctype MIMEApplicationJSON then
                 (case json_Unmarshal L body i of
                    (i', Some err) \<Rightarrow> (i', Err (HTTPError StatusBadRequest (Some err)))
                  | (i', None) \<Rightarrow> bindParams L i' req)
               else if HasPrefix ctype MIMEApplicationXML \<or> HasPrefix ctype MIMETextXML then
                 (case xml_Unmarshal L body i of
                    (i', Some err) \<Rightarrow> (i', Err (HTTPError StatusBadRequest (Some err)))
                  | (i', None) \<Rightarrow> bindParams L i' req)
               else if HasPrefix ctype MIMEApplicationForm \<or> HasPrefix ctype MIMEMultipartForm
               then
                 (case FormParams req of
                    Inl err \<Rightarrow> (i, Err (HTTPError StatusBadRequest (Some err)))
                  | Inr params \<Rightarrow>
                      (case bindData L i params ''form'' of
                         (i', Err err) \<Rightarrow> (i', Err (HTTPError StatusBadRequest (Some err)))
                       | (i', Panic p) \<Rightarrow> (i', Panic p)
                       | (i', Ok) \<Rightarrow> bindParams L i' req))
               else (i, Err ErrUnsupportedMediaType)
      else bindParams L i req)"

section \<open>A library instance and targets to run the binder on\<close>

text \<open>
  An instance of the library parameters for running the model on concrete input:
  case folding of ASCII letters, decimal literals of the form digits.digits read as
  rationals, and decoders that reject every body. The theorems below hold for every
  instance; this one only supplies their concrete inputs.
\<close>

definition fold_code :: "char \<Rightarrow> nat" where
  "fold_code c = (let n = of_char c in if 65 \<le> n \<and> n \<le> 90 then n + 32 else n)"

definition ascii_EqualFold :: "string \<Rightarrow> string \<Rightarrow> bool" where
  "ascii_EqualFold s t = (map fold_code s = map fold_code t)"

definition decimal_ParseFloat :: "string \<Rightarrow> nat \<Rightarrow> error + rat" where
  "decimal_ParseFloat s bitSize =
     (let ip = takeWhile (\<lambda>c. c \<noteq> CHR ''.'') s;
          fp = drop (length ip + 1) s
      in case (parse_digits (2 ^ 64 - 1) 0 ip, parse_digits (2 ^ 64 - 1) 0 fp) of
           (Inr a, Inr b) \<Rightarrow>
             if ip = [] \<and> fp = [] then Inl (NumError ''ParseFloat'' s ErrSyntax)
             else Inr (of_nat a + of_nat b / 10 ^ length fp)
         | _ \<Rightarrow> Inl (NumError ''ParseFloat'' s ErrSyntax))"

definition example_lib :: "rat lib" where
  "example_lib =
     \<lparr>EqualFold = ascii_EqualFold,
      ParseFloat = decimal_ParseFloat,
      json_Unmarshal = (\<lambda>body i. (i, Some (UserError ''json''))),
      xml_Unmarshal = (\<lambda>body i. (i, Some (UserError ''xml'')))\<rparr>"

text \<open>Types for the examples: unnamed types without methods, and exported fields.\<close>

definition basic :: "kind \<Rightarrow> rat gotype" where
  "basic k = TBasic plain k"

definition slice_of :: "rat gotype \<Rightarrow> rat gotype" where
  "slice_of t = TSlice plain t"

definition struct :: "(field_decl \<times> rat gotype) list \<Rightarrow> rat gotype" where
  "struct fs = TStruct plain fs"

definition fld :: "string \<Rightarrow> (string \<times> string) list \<Rightarrow> rat gotype \<Rightarrow> field_decl \<times> rat gotype" where
  "fld n tags t = (\<lparr>Name = n, Tag = tags, Exported = True\<rparr>, t)"

text \<open>
  A defined integer type with both unmarshal methods: \<^verbatim>\<open>UnmarshalParam\<close> stores the
  length of the text, \<^verbatim>\<open>UnmarshalText\<close> fails.
\<close>

definition counted :: "rat gotype" where
  "counted = TBasic \<lparr>defined = True,
                     UnmarshalParam = Some (\<lambda>s v. (VInt (int (length s)), None)),
                     UnmarshalText = Some (\<lambda>s v. (v, Some (UserError ''text'')))\<rparr> KInt"

text \<open>The definitions that running the model on a concrete input unfolds.\<close>

lemmas run_defs =
  basic_def slice_of_def struct_def fld_def plain_def example_lib_def
  bindData.simps setWithProperType.simps bindField_def lookupInput_def Tag_Get_def
  unmarshalField_def unmarshalFieldNonPtr_def unmarshalFieldPtr_def addr_methods_def
  outcome_of_def setIntField_def setUintField_def setBoolField_def setFloatField_def
  ParseInt_def ParseUint_def ParseBool_def digit_def IntSize_def
  ascii_EqualFold_def fold_code_def decimal_ParseFloat_def
  SetMapIndex_def accepts_string_def

section \<open>Outcomes of the coercion engine\<close>

lemma outcome_of_no_panic: "outcome_of e \<noteq> Panic p"
  by (simp add: outcome_of_def split: option.splits)

lemma unmarshalFieldNonPtr_no_panic:
  "unmarshalFieldNonPtr val t field = (ok, field', r) \<Longrightarrow> r \<noteq> Panic p"
  by (auto simp: unmarshalFieldNonPtr_def outcome_of_no_panic split: option.splits prod.splits)

lemma unmarshalField_panic:
  "unmarshalField k val t field = (ok, field', Panic p) \<Longrightarrow> p = IllTyped"
  by (auto simp: unmarshalField_def unmarshalFieldPtr_def
      dest: unmarshalFieldNonPtr_no_panic split: if_splits gotype.splits gval.splits prod.splits)

lemma setIntField_no_panic: "setIntField val b field = (field', r) \<Longrightarrow> r \<noteq> Panic p"
  by (auto simp: setIntField_def Let_def split: sum.splits)

lemma setUintField_no_panic: "setUintField val b field = (field', r) \<Longrightarrow> r \<noteq> Panic p"
  by (auto simp: setUintField_def Let_def split: sum.splits)

lemma setBoolField_no_panic: "setBoolField val field = (field', r) \<Longrightarrow> r \<noteq> Panic p"
  by (auto simp: setBoolField_def Let_def split: sum.splits)

lemma setFloatField_no_panic: "setFloatField L val b field = (field', r) \<Longrightarrow> r \<noteq> Panic p"
  by (auto simp: setFloatField_def Let_def split: sum.splits)

lemmas setField_no_panic =
  setIntField_no_panic setUintField_no_panic setBoolField_no_panic setFloatField_no_panic

declare setWithProperType.simps [simp del]

lemma setWithProperType_claimed:
  "unmarshalField k val t sf = (True, f, r) \<Longrightarrow> setWithProperType L k val t sf = (f, r)"
  by (simp add: setWithProperType.simps[of L k val t sf])

lemma setWithProperType_panicked:
  "unmarshalField k val t sf = (False, f, Panic p) \<Longrightarrow>
   setWithProperType L k val t sf = (f, Panic p)"
  by (simp add: setWithProperType.simps[of L k val t sf])

lemma setWithProperType_unclaimed:
  "unmarshalField k val t sf = (False, f, r) \<Longrightarrow> \<forall>p. r \<noteq> Panic p \<Longrightarrow>
   setWithProperType L k val t sf =
     (case k of
        KPtr \<Rightarrow>
          (case (t, f) of
             (TPtr i et, VPtr p) \<Rightarrow>
               (case setWithProperType L (Kind et) val et p of (p', r) \<Rightarrow> (VPtr p', r))
           | _ \<Rightarrow> (f, Panic IllTyped))
      | KInt \<Rightarrow> setIntField val 0 f
      | KInt8 \<Rightarrow> setIntField val 8 f
      | KInt16 \<Rightarrow> setIntField val 16 f
      | KInt32 \<Rightarrow> setIntField val 32 f
      | KInt64 \<Rightarrow> setIntField val 64 f
      | KUint \<Rightarrow> setUintField val 0 f
      | KUint8 \<Rightarrow> setUintField val 8 f
      | KUint16 \<Rightarrow> setUintField val 16 f
      | KUint32 \<Rightarrow> setUintField val 32 f
      | KUint64 \<Rightarrow> setUintField val 64 f
      | KBool \<Rightarrow> setBoolField val f
      | KFloat32 \<Rightarrow> setFloatField L val 32 f
      | KFloat64 \<Rightarrow> setFloatField L val 64 f
      | KString \<Rightarrow> (VString val, Ok)
      | _ \<Rightarrow> (f, Err ErrUnknownType))"
  by (cases r) (simp_all add: setWithProperType.simps[of L k val t sf])

lemma setWithProperType_panic:
  "setWithProperType L k val t field = (field', Panic p) \<Longrightarrow> p = IllTyped"
proof (induction L k val t field arbitrary: field' p rule: setWithProperType.induct)
  case (1 L valueKind val t structField)
  obtain ok f r where u: "unmarshalField valueKind val t structField = (ok, f, r)"
    by (cases "unmarshalField valueKind val t structField") auto
  show ?case
  proof (cases "ok \<or> (\<exists>q. r = Panic q)")
    case True
    with u "1.prems" show ?thesis
      by (cases ok) (auto simp: setWithProperType_claimed setWithProperType_panicked
          dest: unmarshalField_panic)
  next
    case False
    then have nok: "\<not> ok" and np: "\<forall>q. r \<noteq> Panic q" by auto
    show ?thesis
    proof (cases "valueKind = KPtr")
      case True
      show ?thesis
      proof (cases "\<exists>i et q. t = TPtr i et \<and> f = VPtr q")
        case True
        then obtain i et q where tf: "t = TPtr i et" "f = VPtr q" by auto
        obtain q' r' where rec: "setWithProperType L (Kind et) val et q = (q', r')"
          by (cases "setWithProperType L (Kind et) val et q") auto
        from u nok np \<open>valueKind = KPtr\<close> tf rec "1.prems"
        have "r' = Panic p"
          by (simp add: setWithProperType_unclaimed)
        with rec "1.IH" u nok np \<open>valueKind = KPtr\<close> tf
        show ?thesis by (cases r) auto
      next
        case False
        with u nok np \<open>valueKind = KPtr\<close> "1.prems" show ?thesis
          by (auto simp: setWithProperType_unclaimed split: gotype.splits gval.splits)
      qed
    next
      case nptr: False
      from u nok np "1.prems" have
        "(case valueKind of
        KPtr \<Rightarrow> (f, Panic IllTyped)
      | KInt \<Rightarrow> setIntField val 0 f
      | KInt8 \<Rightarrow> setIntField val 8 f
      | KInt16 \<Rightarrow> setIntField val 16 f
      | KInt32 \<Rightarrow> setIntField val 32 f
      | KInt64 \<Rightarrow> setIntField val 64 f
      | KUint \<Rightarrow> setUintField val 0 f
      | KUint8 \<Rightarrow> setUintField val 8 f
      | KUint16 \<Rightarrow> setUintField val 16 f
      | KUint32 \<Rightarrow> setUintField val 32 f
      | KUint64 \<Rightarrow> setUintField val 64 f
      | KBool \<Rightarrow> setBoolField val f
      | KFloat32 \<Rightarrow> setFloatField L val 32 f
      | KFloat64 \<Rightarrow> setFloatField L val 64 f
      | KString \<Rightarrow> (VString val, Ok)
      | _ \<Rightarrow> (f, Err ErrUnknownType)) = (field', Panic p)"
        using nptr by (cases valueKind) (simp_all add: setWithProperType_unclaimed)
      then show ?thesis
        by (cases valueKind) (auto dest: setField_no_panic)
    qed
  qed
qed


lemma setSliceElems_all_Ok:
  "\<forall>s \<in> set ss. snd (setWithProperType L (Kind et) s et (Zero et)) = Ok \<Longrightarrow>
   setSliceElems L et ss = (map (\<lambda>s. fst (setWithProperType L (Kind et) s et (Zero et))) ss, Ok)"
  by (induction ss) (auto split: prod.splits outcome.splits)

lemma setSliceElems_first_failure:
  "j < length ss \<Longrightarrow>
   \<forall>i < j. snd (setWithProperType L (Kind et) (ss ! i) et (Zero et)) = Ok \<Longrightarrow>
   snd (setWithProperType L (Kind et) (ss ! j) et (Zero et)) = r \<Longrightarrow> r \<noteq> Ok \<Longrightarrow>
   snd (setSliceElems L et ss) = r"
proof (induction ss arbitrary: j)
  case Nil
  then show ?case by simp
next
  case (Cons s ss)
  show ?case
  proof (cases j)
    case 0
    with Cons.prems show ?thesis
      by (auto split: prod.splits outcome.splits)
  next
    case (Suc j')
    with Cons.prems have h: "snd (setWithProperType L (Kind et) s et (Zero et)) = Ok"
      by auto
    from Suc Cons.prems have "snd (setSliceElems L et ss) = r"
      by (intro Cons.IH[of j']) auto
    with h show ?thesis
      by (auto split: prod.splits outcome.splits)
  qed
qed

lemma setSliceElems_panic:
  "setSliceElems L et ss = (es, Panic p) \<Longrightarrow> p = IllTyped"
  by (induction ss arbitrary: es)
     (auto split: prod.splits outcome.splits dest: setWithProperType_panic)

lemma SetMapIndex_no_index: "SetMapIndex kt et m k v = (m', Panic p) \<Longrightarrow> p \<noteq> IndexOutOfRange"
  by (auto simp: SetMapIndex_def split: if_splits gval.splits)

lemma bindMap_no_index:
  "\<forall>(k, v) \<in> set data. v \<noteq> [] \<Longrightarrow> snd (bindMap kt et m data) \<noteq> Panic IndexOutOfRange"
proof (induction data arbitrary: m)
  case Nil
  then show ?case by simp
next
  case (Cons kv data)
  obtain k v where kv: "kv = (k, v)" by (cases kv)
  with Cons.prems obtain v0 vs where v: "v = v0 # vs" by (cases v) auto
  obtain m' r where s: "SetMapIndex kt et m k v0 = (m', r)" by (cases "SetMapIndex kt et m k v0")
  show ?case
  proof (cases r)
    case Ok
    with kv v s Cons show ?thesis by simp
  next
    case (Err e)
    with kv v s show ?thesis by simp
  next
    case (Panic p)
    with kv v s SetMapIndex_no_index[of kt et m k v0 m' p] show ?thesis by simp
  qed
qed

lemma find_SomeD: "find P xs = Some y \<Longrightarrow> y \<in> set xs \<and> P y"
  by (induction xs) (auto split: if_splits)

lemma find_None_iff': "find P xs = None \<longleftrightarrow> (\<forall>y \<in> set xs. \<not> P y)"
  by (induction xs) auto

lemma lookupInput_in_data:
  "lookupInput L data n = Some x \<Longrightarrow> \<exists>k. (k, x) \<in> set data"
  by (auto simp: lookupInput_def split: option.splits prod.splits
      dest: map_of_SomeD find_SomeD)

lemma bindField_no_index:
  assumes "\<forall>(k, v) \<in> set data. v \<noteq> []"
  shows "snd (bindField L n t sf data) \<noteq> Panic IndexOutOfRange"
proof (cases "lookupInput L data n")
  case None
  then show ?thesis by (simp add: bindField_def)
next
  case (Some x)
  with assms lookupInput_in_data[OF Some] obtain v0 vs where x: "x = v0 # vs"
    by (cases x) auto
  obtain ok f r where u: "unmarshalField (Kind t) v0 t sf = (ok, f, r)"
    by (cases "unmarshalField (Kind t) v0 t sf") auto
  show ?thesis
  proof (cases "ok \<or> (\<exists>q. r = Panic q)")
    case True
    with Some x u show ?thesis
      by (cases ok) (auto simp: bindField_def dest: unmarshalField_panic)
  next
    case False
    then have b: "bindField L n t sf data =
        (if Kind t = KSlice then
           (case t of
              TSlice i et \<Rightarrow>
                (case setSliceElems L et x of
                   (slice, Ok) \<Rightarrow> (VSlice slice, Ok)
                 | (slice, r) \<Rightarrow> (f, r))
            | _ \<Rightarrow> (f, Panic IllTyped))
         else setWithProperType L (Kind t) v0 t f)"
      using Some x u by (cases r) (auto simp: bindField_def)
    show ?thesis
    proof (cases "Kind t = KSlice")
      case True
      with b show ?thesis
        by (auto split: gotype.splits prod.splits outcome.splits dest: setSliceElems_panic)
    next
      case False
      with b setWithProperType_panic[of L "Kind t" v0 t f] show ?thesis
        by (cases "setWithProperType L (Kind t) v0 t f") auto
    qed
  qed
qed


declare bindData.simps [simp del]

lemma bind_no_index:
  "(\<forall>(k, v) \<in> set data. v \<noteq> []) \<longrightarrow> snd (bindData L ptr data tag) \<noteq> Panic IndexOutOfRange"
  "(\<forall>(k, v) \<in> set data. v \<noteq> []) \<longrightarrow> snd (bindFields L fs vals data tag) \<noteq> Panic IndexOutOfRange"
proof (induction L ptr data tag and L fs vals data tag rule: bindData_bindFields.induct)
  case (1 L ptr data tag)
  show ?case
  proof
    assume ne: "\<forall>(k, v) \<in> set data. v \<noteq> []"
    show "snd (bindData L ptr data tag) \<noteq> Panic IndexOutOfRange"
    proof (cases ptr)
      case None
      then show ?thesis by (simp add: bindData.simps)
    next
      case (Some tv)
      obtain t v where tv: "tv = (t, v)" by (cases tv)
      show ?thesis
      proof (cases "data = []")
        case True
        with Some tv show ?thesis by (simp add: bindData.simps)
      next
        case False
        show ?thesis
        proof (cases t)
          case (TMap i kt et)
          with Some tv False bindMap_no_index[OF ne, of kt et v] show ?thesis
            by (auto simp: bindData.simps split: prod.splits)
        next
          case (TStruct i fs)
          show ?thesis
          proof (cases v)
            case (VStruct vs)
            with "1.IH"[OF Some tv[symmetric] False TStruct VStruct] ne Some tv False TStruct
            show ?thesis
              by (auto simp: bindData.simps split: prod.splits)
          qed (use Some tv False TStruct in \<open>simp_all add: bindData.simps\<close>)
        qed (use Some tv False in \<open>simp_all add: bindData.simps\<close>)
      qed
    qed
  qed
next
  case (2 L vs data tag)
  then show ?case by simp
next
  case (3 L fd t fs data tag)
  then show ?case by simp
next
  case (4 L fd t fs structField vs data tag)
  show ?case
  proof
    assume ne: "\<forall>(k, v) \<in> set data. v \<noteq> []"
    show "snd (bindFields L ((fd, t) # fs) (structField # vs) data tag) \<noteq> Panic IndexOutOfRange"
    proof (cases "Exported fd")
      case False
      with "4.IH"(1) ne show ?thesis by (auto split: prod.splits)
    next
      case True
      show ?thesis
      proof (cases "Tag_Get (Tag fd) tag = [] \<and> UnmarshalParam (addr_methods t) = None \<and> Kind t = KStruct")
        case rec: True
        obtain p r where b: "bindData L (Some (t, structField)) data tag = (p, r)"
          by (cases "bindData L (Some (t, structField)) data tag")
        from "4.IH"(2)[OF _ refl] True rec ne b have r: "r \<noteq> Panic IndexOutOfRange" by auto
        show ?thesis
        proof (cases "\<exists>t' f. p = Some (t', f) \<and> r = Ok")
          case True
          then obtain t' f where pf: "p = Some (t', f)" "r = Ok" by auto
          from "4.IH"(3)[OF _ refl _ b[symmetric] pf(1) refl] \<open>Exported fd\<close> rec pf ne
          have "snd (bindFields L fs vs data tag) \<noteq> Panic IndexOutOfRange" by auto
          with \<open>Exported fd\<close> rec b pf show ?thesis by (auto split: prod.splits)
        next
          case False
          with \<open>Exported fd\<close> rec b r show ?thesis
            by (auto split: prod.splits option.splits outcome.splits)
        qed
      next
        case norec: False
        let ?n = "if Tag_Get (Tag fd) tag = [] then Name fd else Tag_Get (Tag fd) tag"
        obtain f r where b: "bindField L ?n t structField data = (f, r)"
          by (cases "bindField L ?n t structField data")
        from bindField_no_index[OF ne, of L ?n t structField] b
        have r: "r \<noteq> Panic IndexOutOfRange" by simp
        show ?thesis
        proof (cases "r = Ok")
          case True
          from "4.IH"(4)[OF _ refl _ b[symmetric]] \<open>Exported fd\<close> norec True ne
          have "snd (bindFields L fs vs data tag) \<noteq> Panic IndexOutOfRange" by auto
          with \<open>Exported fd\<close> norec b True show ?thesis
            by (auto simp: Let_def split: prod.splits)
        next
          case False
          with \<open>Exported fd\<close> norec b r show ?thesis
            by (auto simp: Let_def split: prod.splits outcome.splits)
        qed
      qed
    qed
  qed
qed


lemma SetMapIndex_VMap:
  "accepts_string kt \<Longrightarrow> accepts_string et \<Longrightarrow>
   SetMapIndex kt et (VMap m) k v = (VMap (AList.update (VString k) (VString v) m), Ok)"
  by (simp add: SetMapIndex_def)

lemma bindMap_empty_entry:
  "accepts_string kt \<Longrightarrow> accepts_string et \<Longrightarrow> \<exists>(k, v) \<in> set data. v = [] \<Longrightarrow>
   snd (bindMap kt et (VMap m) data) = Panic IndexOutOfRange"
proof (induction data arbitrary: m)
  case Nil
  then show ?case by simp
next
  case (Cons kv data)
  obtain k v where kv: "kv = (k, v)" by (cases kv)
  show ?case
  proof (cases v)
    case Nil
    with kv show ?thesis by simp
  next
    case (Cons v0 vs)
    with kv Cons.prems have "\<exists>(k, v) \<in> set data. v = []" by auto
    from Cons.IH[OF Cons.prems(1,2) this] kv Cons Cons.prems(1,2) show ?thesis
      by (simp add: SetMapIndex_VMap)
  qed
qed

lemma bindMap_VMap:
  "accepts_string kt \<Longrightarrow> accepts_string et \<Longrightarrow> \<forall>(k, v) \<in> set data. v \<noteq> [] \<Longrightarrow>
   \<exists>m'. bindMap kt et (VMap m) data = (VMap m', Ok) \<and>
     (\<forall>k. map_of m' (VString k) =
        (case map_of (rev data) k of
           Some v \<Rightarrow> Some (VString (hd v))
         | None \<Rightarrow> map_of m (VString k))) \<and>
     (\<forall>x. (\<forall>k. x \<noteq> VString k) \<longrightarrow> map_of m' x = map_of m x)"
proof (induction data arbitrary: m)
  case Nil
  then show ?case by simp
next
  case (Cons kv data)
  obtain k v where kv: "kv = (k, v)" by (cases kv)
  with Cons.prems obtain v0 vs where v: "v = v0 # vs" by (cases v) auto
  let ?m1 = "AList.update (VString k) (VString v0) m"
  from Cons.prems have "\<forall>(k, v) \<in> set data. v \<noteq> []" by simp
  from Cons.IH[OF Cons.prems(1,2) this, of ?m1] obtain m' where
    m': "bindMap kt et (VMap ?m1) data = (VMap m', Ok)"
    "\<forall>k'. map_of m' (VString k') =
        (case map_of (rev data) k' of
           Some v \<Rightarrow> Some (VString (hd v))
         | None \<Rightarrow> map_of ?m1 (VString k'))"
    "\<forall>x. (\<forall>k. x \<noteq> VString k) \<longrightarrow> map_of m' x = map_of ?m1 x"
    by blast
  have "bindMap kt et (VMap m) (kv # data) = (VMap m', Ok)"
    using kv v m'(1) Cons.prems(1,2) by (simp add: SetMapIndex_VMap)
  moreover have "\<forall>k'. map_of m' (VString k') =
        (case map_of (rev (kv # data)) k' of
           Some v \<Rightarrow> Some (VString (hd v))
         | None \<Rightarrow> map_of m (VString k'))"
    using m'(2) kv v by (auto simp: map_add_def update_conv' split: option.splits)
  moreover have "\<forall>x. (\<forall>k. x \<noteq> VString k) \<longrightarrow> map_of m' x = map_of m x"
    using m'(3) by (auto simp: update_conv')
  ultimately show ?case by blast
qed


section \<open>The claims\<close>

subsection \<open>Reading the first value of an entry\<close>

text \<open>
  C9. When every value sequence of the source map is non-empty, no access the binder
  makes to the first element of a value sequence is out of range: a call of
  \<open>bindData\<close> never ends in the index-out-of-range panic. Without that precondition
  the accesses are out of range: a map target that accepts the entries panics as soon as
  an entry has no value, and a struct field whose matched entry has no value panics at
  the custom-unmarshal dispatch, before any coercion.
\<close>

theorem first_value_access_in_bounds:
  "((\<forall>(k, v) \<in> set data. v \<noteq> []) \<longrightarrow>
      snd (bindData L ptr data tag) \<noteq> Panic IndexOutOfRange) \<and>
   (accepts_string kt \<and> accepts_string et \<and> (\<exists>(k, v) \<in> set data. v = []) \<longrightarrow>
      snd (bindData L (Some (TMap i kt et, VMap m)) data tag) = Panic IndexOutOfRange) \<and>
   (lookupInput L data n = Some [] \<longrightarrow>
      bindField L n t structField data = (structField, Panic IndexOutOfRange))"
proof (intro conjI impI)
  assume "\<forall>(k, v) \<in> set data. v \<noteq> []"
  then show "snd (bindData L ptr data tag) \<noteq> Panic IndexOutOfRange"
    using bind_no_index(1) by blast
next
  assume h: "accepts_string kt \<and> accepts_string et \<and> (\<exists>(k, v) \<in> set data. v = [])"
  then have "data \<noteq> []" by auto
  with h bindMap_empty_entry[of kt et data m]
  show "snd (bindData L (Some (TMap i kt et, VMap m)) data tag) = Panic IndexOutOfRange"
    by (auto simp: bindData.simps split: prod.splits)
next
  assume "lookupInput L data n = Some []"
  then show "bindField L n t structField data = (structField, Panic IndexOutOfRange)"
    by (simp add: bindField_def)
qed

theorem first_value_access_in_bounds_witness:
  "snd (bindData example_lib
          (Some (struct [fld ''X'' [(''form'', ''x'')] (basic KInt)], VStruct [VInt 0]))
          [(''x'', [''1''])] ''form'') \<noteq> Panic IndexOutOfRange \<and>
   snd (bindData example_lib
          (Some (TMap plain (basic KString) (basic KString), VMap []))
          [(''a'', [''1'']), (''b'', [])] ''form'') = Panic IndexOutOfRange \<and>
   bindField example_lib ''x'' (basic KInt) (VInt 0) [(''x'', [])]
     = (VInt 0, Panic IndexOutOfRange)"
proof (intro conjI)
  show "snd (bindData example_lib
          (Some (struct [fld ''X'' [(''form'', ''x'')] (basic KInt)], VStruct [VInt 0]))
          [(''x'', [''1''])] ''form'') \<noteq> Panic IndexOutOfRange"
    using first_value_access_in_bounds[where data = "[(''x'', [''1''])]" and L = example_lib
        and tag = "''form''"
        and ptr = "Some (struct [fld ''X'' [(''form'', ''x'')] (basic KInt)], VStruct [VInt 0])"]
    by simp
next
  show "snd (bindData example_lib
          (Some (TMap plain (basic KString) (basic KString), VMap []))
          [(''a'', [''1'']), (''b'', [])] ''form'') = Panic IndexOutOfRange"
    using first_value_access_in_bounds[where data = "[(''a'', [''1'']), (''b'', [])]"
        and L = example_lib and tag = "''form''" and kt = "basic KString"
        and et = "basic KString" and i = plain and m = "[]"]
    by (simp add: accepts_string_def basic_def plain_def)
next
  show "bindField example_lib ''x'' (basic KInt) (VInt 0) [(''x'', [])]
     = (VInt 0, Panic IndexOutOfRange)"
    using first_value_access_in_bounds[where data = "[(''x'', [])]" and L = example_lib
        and n = "''x''" and t = "basic KInt" and structField = "VInt 0"]
    by (simp add: lookupInput_def)
qed

subsection \<open>A map as the target\<close>

text \<open>
  C8, as stated, fails: a nil map target makes the binder panic, and so does a map whose
  element type does not accept a string.
\<close>

theorem map_target_counterexample:
  "bindData example_lib (Some (TMap plain (basic KString) (basic KString), VNil))
      [(''a'', [''1''])] ''form''
     = (Some (TMap plain (basic KString) (basic KString), VNil), Panic NilMap) \<and>
   bindData example_lib (Some (TMap plain (basic KString) (basic KInt), VMap []))
      [(''a'', [''1''])] ''form''
     = (Some (TMap plain (basic KString) (basic KInt), VMap []), Panic NotAssignable)"
  by (simp add: run_defs)

text \<open>
  C8, amended. When the target is a non-nil map whose key type and element type accept a
  string, and every value sequence of the source map is non-empty, the binder returns
  success, whatever the tag, and leaves a map in which every key of the source map holds
  the first string of that key's entry (of the last such entry the iteration visits, if
  the key is visited more than once) and every other key holds what it held before.
\<close>

theorem map_target_bound:
  assumes "accepts_string kt" and "accepts_string et"
    and "\<forall>(k, v) \<in> set data. v \<noteq> []"
  shows "\<exists>m'. bindData L (Some (TMap i kt et, VMap m)) data tag
                 = (Some (TMap i kt et, VMap m'), Ok) \<and>
     (\<forall>k. map_of m' (VString k) =
        (case map_of (rev data) k of
           Some v \<Rightarrow> Some (VString (hd v))
         | None \<Rightarrow> map_of m (VString k))) \<and>
     (\<forall>x. (\<forall>k. x \<noteq> VString k) \<longrightarrow> map_of m' x = map_of m x)"
proof (cases "data = []")
  case True
  then have "bindData L (Some (TMap i kt et, VMap m)) data tag
      = (Some (TMap i kt et, VMap m), Ok)"
    by (simp add: bindData.simps)
  moreover from True have
    "\<forall>k. map_of m (VString k) =
        (case map_of (rev data) k of
           Some v \<Rightarrow> Some (VString (hd v))
         | None \<Rightarrow> map_of m (VString k))"
    by simp
  ultimately show ?thesis by blast
next
  case False
  from bindMap_VMap[OF assms, of m] obtain m' where m':
    "bindMap kt et (VMap m) data = (VMap m', Ok)"
    "\<forall>k. map_of m' (VString k) =
        (case map_of (rev data) k of
           Some v \<Rightarrow> Some (VString (hd v))
         | None \<Rightarrow> map_of m (VString k))"
    "\<forall>x. (\<forall>k. x \<noteq> VString k) \<longrightarrow> map_of m' x = map_of m x"
    by blast
  from False m'(1) have "bindData L (Some (TMap i kt et, VMap m)) data tag
      = (Some (TMap i kt et, VMap m'), Ok)"
    by (simp add: bindData.simps)
  with m'(2,3) show ?thesis by blast
qed

theorem map_target_bound_witness:
  "\<exists>m'. bindData example_lib
           (Some (TMap plain (basic KString) (basic KString),
                  VMap [(VString ''a'', VString ''old''), (VString ''c'', VString ''kept'')]))
           [(''a'', [''1'', ''2'']), (''b'', [''x'']), (''a'', [''3''])] ''query''
         = (Some (TMap plain (basic KString) (basic KString), VMap m'), Ok) \<and>
       map_of m' (VString ''a'') = Some (VString ''3'') \<and>
       map_of m' (VString ''b'') = Some (VString ''x'') \<and>
       map_of m' (VString ''c'') = Some (VString ''kept'')"
proof -
  define d :: data where "d = [(''a'', [''1'', ''2'']), (''b'', [''x'']), (''a'', [''3''])]"
  define m0 :: "(rat gval \<times> rat gval) list"
    where "m0 = [(VString ''a'', VString ''old''), (VString ''c'', VString ''kept'')]"
  define q :: string where "q = ''query''"
  have a: "accepts_string (basic KString)"
    by (simp add: accepts_string_def basic_def plain_def)
  have ne: "\<forall>(k, v) \<in> set d. v \<noteq> []"
    by (simp add: d_def)
  from map_target_bound[OF a a ne, of example_lib plain m0 q]
  obtain m' where m':
    "bindData example_lib (Some (TMap plain (basic KString) (basic KString), VMap m0)) d q
       = (Some (TMap plain (basic KString) (basic KString), VMap m'), Ok)"
    "\<And>k. map_of m' (VString k) =
        (case map_of (rev d) k of
           Some v \<Rightarrow> Some (VString (hd v))
         | None \<Rightarrow> map_of m0 (VString k))"
    by blast
  have "map_of m' (VString ''a'') = Some (VString ''3'')"
    by (simp add: m'(2) d_def m0_def)
  moreover have "map_of m' (VString ''b'') = Some (VString ''x'')"
    by (simp add: m'(2) d_def m0_def)
  moreover have "map_of m' (VString ''c'') = Some (VString ''kept'')"
    by (simp add: m'(2) d_def m0_def)
  ultimately show ?thesis
    using m'(1) unfolding d_def m0_def q_def by (intro exI[of _ m'] conjI)
qed

subsection \<open>The empty string\<close>

lemma unmarshalField_unclaimed:
  "k \<noteq> KPtr \<Longrightarrow> UnmarshalParam (addr_methods t) = None \<Longrightarrow>
   UnmarshalText (addr_methods t) = None \<Longrightarrow>
   unmarshalField k val t field = (False, field, Ok)"
  by (simp add: unmarshalField_def unmarshalFieldNonPtr_def)

lemma ParseInt_zero: "b \<in> {0, 8, 16, 32, 64} \<Longrightarrow> ParseInt ''0'' b = Inr 0"
  by (auto simp: ParseInt_def ParseUint_def digit_def IntSize_def)

lemma ParseUint_zero: "ParseUint ''0'' b = Inr 0"
  by (simp add: ParseUint_def digit_def)

lemma ParseBool_false: "ParseBool ''false'' = Inr False"
  by (simp add: ParseBool_def)

text \<open>
  C4. Coercing the empty string into a field whose type has neither unmarshal method
  succeeds and sets the zero value: 0 for every signed and unsigned integer kind, false
  for a boolean, and 0.0 for the two floating-point kinds, given that
  \<^verbatim>\<open>strconv.ParseFloat\<close> reads the text \<^verbatim>\<open>0.0\<close> as zero.
\<close>

theorem empty_string_coerces_to_zero:
  assumes "UnmarshalParam (addr_methods t) = None" and "UnmarshalText (addr_methods t) = None"
  shows
    "(k \<in> {KInt, KInt8, KInt16, KInt32, KInt64} \<longrightarrow>
        setWithProperType L k [] t field = (VInt 0, Ok)) \<and>
     (k \<in> {KUint, KUint8, KUint16, KUint32, KUint64} \<longrightarrow>
        setWithProperType L k [] t field = (VUint 0, Ok)) \<and>
     (k = KBool \<longrightarrow> setWithProperType L k [] t field = (VBool False, Ok)) \<and>
     (k = KFloat32 \<and> ParseFloat L ''0.0'' 32 = Inr 0 \<longrightarrow>
        setWithProperType L k [] t field = (VFloat 0, Ok)) \<and>
     (k = KFloat64 \<and> ParseFloat L ''0.0'' 64 = Inr 0 \<longrightarrow>
        setWithProperType L k [] t field = (VFloat 0, Ok))"
proof -
  have u: "k \<noteq> KPtr \<Longrightarrow> unmarshalField k [] t field = (False, field, Ok)" for k
    using assms by (simp add: unmarshalField_unclaimed)
  have i: "setWithProperType L k [] t field = (VInt 0, Ok)"
    if "k \<in> {KInt, KInt8, KInt16, KInt32, KInt64}"
    using that u[of k]
    by (auto simp: setWithProperType_unclaimed setIntField_def ParseInt_zero)
  have n: "setWithProperType L k [] t field = (VUint 0, Ok)"
    if "k \<in> {KUint, KUint8, KUint16, KUint32, KUint64}"
    using that u[of k]
    by (auto simp: setWithProperType_unclaimed setUintField_def ParseUint_zero)
  have b: "setWithProperType L KBool [] t field = (VBool False, Ok)"
    using u[of KBool]
    by (simp add: setWithProperType_unclaimed setBoolField_def ParseBool_false)
  have f32: "setWithProperType L KFloat32 [] t field = (VFloat 0, Ok)"
    if "ParseFloat L ''0.0'' 32 = Inr 0"
    using that u[of KFloat32]
    by (simp add: setWithProperType_unclaimed setFloatField_def)
  have f64: "setWithProperType L KFloat64 [] t field = (VFloat 0, Ok)"
    if "ParseFloat L ''0.0'' 64 = Inr 0"
    using that u[of KFloat64]
    by (simp add: setWithProperType_unclaimed setFloatField_def)
  from i n b f32 f64 show ?thesis by blast
qed

theorem empty_string_coerces_to_zero_witness:
  "setWithProperType example_lib KInt16 [] (basic KInt16) (VInt 7) = (VInt 0, Ok) \<and>
   setWithProperType example_lib KUint8 [] (basic KUint8) (VUint 7) = (VUint 0, Ok) \<and>
   setWithProperType example_lib KBool [] (basic KBool) (VBool True) = (VBool False, Ok) \<and>
   setWithProperType example_lib KFloat32 [] (basic KFloat32) (VFloat 7) = (VFloat 0, Ok) \<and>
   setWithProperType example_lib KFloat64 [] (basic KFloat64) (VFloat 7) = (VFloat 0, Ok)"
proof -
  have m: "UnmarshalParam (addr_methods (basic k)) = None"
    "UnmarshalText (addr_methods (basic k)) = None" for k
    by (simp_all add: addr_methods_def basic_def plain_def)
  have p: "ParseFloat example_lib ''0.0'' 32 = Inr 0" "ParseFloat example_lib ''0.0'' 64 = Inr 0"
    by (simp_all add: example_lib_def decimal_ParseFloat_def digit_def)
  show ?thesis
    using empty_string_coerces_to_zero[OF m, where k = KInt16 and k1 = KInt16 and L = example_lib and field = "VInt 7"]
      empty_string_coerces_to_zero[OF m, where k = KUint8 and k1 = KUint8 and L = example_lib and field = "VUint 7"]
      empty_string_coerces_to_zero[OF m, where k = KBool and k1 = KBool and L = example_lib and field = "VBool True"]
      empty_string_coerces_to_zero[OF m, where k = KFloat32 and k1 = KFloat32 and L = example_lib and field = "VFloat 7"]
      empty_string_coerces_to_zero[OF m, where k = KFloat64 and k1 = KFloat64 and L = example_lib and field = "VFloat 7"]
      p
    by simp
qed

subsection \<open>Fields of struct kind\<close>

lemma bindField_unclaimed_scalar:
  assumes "lookupInput L data n = Some (v0 # rest)"
    and "unmarshalField (Kind t) v0 t structField = (False, field, Ok)"
    and "Kind t \<noteq> KSlice"
  shows "bindField L n t structField data = setWithProperType L (Kind t) v0 t field"
  using assms by (simp add: bindField_def)

text \<open>
  C10. A settable field of struct kind that carries a non-empty tag for the namespace,
  has neither unmarshal method, and whose resolved name is found in the source map (with
  a non-empty value sequence, as the source map's data model requires) is not recursed
  into: the binder coerces the first value into the struct-kind field, which fails with
  the error "unknown type", and the field and all later fields are left as they were.
\<close>

theorem tagged_struct_field_unknown_type:
  assumes "Exported fd" and "Tag_Get (Tag fd) tag \<noteq> []" and "Kind t = KStruct"
    and "UnmarshalParam (addr_methods t) = None" and "UnmarshalText (addr_methods t) = None"
    and "lookupInput L data (Tag_Get (Tag fd) tag) = Some (v0 # rest)"
  shows "bindFields L ((fd, t) # fs) (structField # vs) data tag
           = (structField # vs, Err ErrUnknownType) \<and>
         message ErrUnknownType = Some ''unknown type''"
proof -
  have u: "unmarshalField (Kind t) v0 t structField = (False, structField, Ok)"
    using assms(3-5) by (simp add: unmarshalField_unclaimed)
  have "bindField L (Tag_Get (Tag fd) tag) t structField data
      = setWithProperType L (Kind t) v0 t structField"
    using assms(6) u assms(3) by (simp add: bindField_unclaimed_scalar)
  also have "\<dots> = (structField, Err ErrUnknownType)"
    using u assms(3) by (simp add: setWithProperType_unclaimed)
  finally show ?thesis
    using assms(1,2) by simp
qed

theorem tagged_struct_field_unknown_type_witness:
  "bindFields example_lib
     [fld ''Addr'' [(''query'', ''addr'')] (struct [fld ''City'' [(''query'', ''city'')] (basic KString)]),
      fld ''N'' [(''query'', ''n'')] (basic KInt)]
     [VStruct [VString []], VInt 0]
     [(''addr'', [''x'']), (''city'', [''NYC'']), (''n'', [''5''])] ''query''
   = ([VStruct [VString []], VInt 0], Err ErrUnknownType)"
proof -
  define inner where "inner = struct [fld ''City'' [(''query'', ''city'')] (basic KString)]"
  define d :: data where "d = [(''addr'', [''x'']), (''city'', [''NYC'']), (''n'', [''5''])]"
  define fd where "fd = \<lparr>Name = ''Addr'', Tag = [(''query'', ''addr'')], Exported = True\<rparr>"
  have 1: "Exported fd" by (simp add: fd_def)
  have 2: "Tag_Get (Tag fd) ''query'' \<noteq> []" by (simp add: fd_def Tag_Get_def)
  have 3: "Kind inner = KStruct" by (simp add: inner_def struct_def)
  have 4: "UnmarshalParam (addr_methods inner) = None" "UnmarshalText (addr_methods inner) = None"
    by (simp_all add: inner_def struct_def addr_methods_def plain_def)
  have 5: "lookupInput example_lib d (Tag_Get (Tag fd) ''query'') = Some (''x'' # [])"
    by (simp add: fd_def Tag_Get_def lookupInput_def d_def)
  from tagged_struct_field_unknown_type[OF 1 2 3 4 5,
      of "[fld ''N'' [(''query'', ''n'')] (basic KInt)]" "VStruct [VString []]" "[VInt 0]"]
  show ?thesis
    by (simp add: fld_def inner_def d_def fd_def)
qed

lemma bindData_Some:
  "\<exists>v'. fst (bindData L (Some (t, v)) data tag) = Some (t, v')"
  by (cases t; cases v) (auto simp: bindData.simps split: prod.splits)

text \<open>
  C6. A settable field of struct kind without a tag for the namespace and without the
  \<^verbatim>\<open>UnmarshalParam\<close> method is bound by the binder itself, called on the field with
  the same source map and namespace: the field takes the value that call leaves, an
  error of that call ends the loop, and otherwise the loop goes on with the next field.
  The field's own name is never looked up: the result is the same whatever the name.
\<close>

theorem untagged_struct_field_recurses:
  assumes "Exported fd" and "Tag_Get (Tag fd) tag = []" and "Kind t = KStruct"
    and "UnmarshalParam (addr_methods t) = None"
  shows "\<exists>field r. bindData L (Some (t, structField)) data tag = (Some (t, field), r) \<and>
           bindFields L ((fd, t) # fs) (structField # vs) data tag
             = (if r = Ok
                then (case bindFields L fs vs data tag of (vs', r') \<Rightarrow> (field # vs', r'))
                else (field # vs, r)) \<and>
           bindFields L ((fd\<lparr>Name := n\<rparr>, t) # fs) (structField # vs) data tag
             = bindFields L ((fd, t) # fs) (structField # vs) data tag"
proof -
  obtain p r where b: "bindData L (Some (t, structField)) data tag = (p, r)"
    by (cases "bindData L (Some (t, structField)) data tag")
  with bindData_Some[of L t structField data tag] obtain field where p: "p = Some (t, field)"
    by auto
  have "bindFields L ((fd, t) # fs) (structField # vs) data tag
             = (if r = Ok
                then (case bindFields L fs vs data tag of (vs', r') \<Rightarrow> (field # vs', r'))
                else (field # vs, r))"
    using assms b p by (cases r) simp_all
  moreover have "bindFields L ((fd\<lparr>Name := n\<rparr>, t) # fs) (structField # vs) data tag
             = bindFields L ((fd, t) # fs) (structField # vs) data tag"
    using assms by simp
  ultimately show ?thesis using b p by blast
qed

theorem untagged_struct_field_recurses_witness:
  "bindFields example_lib
     [fld ''Addr'' [] (struct [fld ''City'' [(''query'', ''city'')] (basic KString)])]
     [VStruct [VString []]]
     [(''city'', [''NYC'']), (''Addr'', [''x''])] ''query''
   = ([VStruct [VString ''NYC'']], Ok)"
proof -
  define inner where "inner = struct [fld ''City'' [(''query'', ''city'')] (basic KString)]"
  define d :: data where "d = [(''city'', [''NYC'']), (''Addr'', [''x''])]"
  define fd where "fd = \<lparr>Name = ''Addr'', Tag = [], Exported = True\<rparr>"
  define sf :: "rat gval" where "sf = VStruct [VString []]"
  define q where "q = ''query''"
  have 1: "Exported fd" by (simp add: fd_def)
  have 2: "Tag_Get (Tag fd) q = []" by (simp add: fd_def Tag_Get_def)
  have 3: "Kind inner = KStruct" by (simp add: inner_def struct_def)
  have 4: "UnmarshalParam (addr_methods inner) = None"
    by (simp add: inner_def struct_def addr_methods_def plain_def)
  have inner: "bindData example_lib (Some (inner, sf)) d q
      = (Some (inner, VStruct [VString ''NYC'']), Ok)"
    by (simp add: inner_def sf_def d_def q_def run_defs)
  from untagged_struct_field_recurses[OF 1 2 3 4, of example_lib sf d "[]" "[]"] inner
  have "bindFields example_lib [(fd, inner)] [sf] d q = ([VStruct [VString ''NYC'']], Ok)"
    by auto
  then show ?thesis
    by (simp add: fld_def inner_def d_def fd_def sf_def q_def)
qed

subsection \<open>Fields with an unmarshal method\<close>

lemma unmarshalFieldNonPtr_Param:
  "UnmarshalParam (addr_methods t) = Some f \<Longrightarrow>
   unmarshalFieldNonPtr val t field = (True, fst (f val field), outcome_of (snd (f val field)))"
  by (simp add: unmarshalFieldNonPtr_def split: prod.splits)

lemma unmarshalFieldNonPtr_Text:
  "UnmarshalParam (addr_methods t) = None \<Longrightarrow> UnmarshalText (addr_methods t) = Some g \<Longrightarrow>
   unmarshalFieldNonPtr val t field = (True, fst (g val field), outcome_of (snd (g val field)))"
  by (simp add: unmarshalFieldNonPtr_def split: prod.splits)

lemma bindField_claimed:
  "lookupInput L data n = Some (v0 # rest) \<Longrightarrow>
   unmarshalField (Kind t) v0 t structField = (True, field, r) \<Longrightarrow>
   bindField L n t structField data = (field, r)"
  by (simp add: bindField_def)

lemma unmarshalFieldPtr_pointee:
  "structField = VNil \<and> p = Zero et \<or> structField = VPtr p \<Longrightarrow>
   unmarshalFieldPtr val (TPtr i et) structField =
     (case unmarshalFieldNonPtr val et p of (ok, p', r) \<Rightarrow> (ok, VPtr p', r))"
  by (auto simp: unmarshalFieldPtr_def)

text \<open>
  C5. For a matched field (its entry begins with the string \<open>v0\<close>) whose type has the
  \<^verbatim>\<open>UnmarshalParam\<close> method, the binder's result for the field is that method's
  result on \<open>v0\<close>: the value it leaves and its error; no coercion takes part, whatever
  the field's kind. With only \<^verbatim>\<open>UnmarshalText\<close> it is that method's result, and with
  both \<^verbatim>\<open>UnmarshalParam\<close> wins. For a pointer field the methods are those of the
  pointee, which is allocated first when the pointer is nil. A settable field with
  \<^verbatim>\<open>UnmarshalParam\<close> is always looked up by its resolved name, also when it is an
  untagged struct.
\<close>

theorem custom_unmarshal_takes_precedence:
  assumes "lookupInput L data n = Some (v0 # rest)"
  shows
    "(Kind t \<noteq> KPtr \<and> UnmarshalParam (addr_methods t) = Some f \<longrightarrow>
        bindField L n t structField data
          = (fst (f v0 structField), outcome_of (snd (f v0 structField)))) \<and>
     (Kind t \<noteq> KPtr \<and> UnmarshalParam (addr_methods t) = None \<and>
      UnmarshalText (addr_methods t) = Some g \<longrightarrow>
        bindField L n t structField data
          = (fst (g v0 structField), outcome_of (snd (g v0 structField)))) \<and>
     (t = TPtr i et \<and> (structField = VNil \<and> p = Zero et \<or> structField = VPtr p) \<and>
      UnmarshalParam (addr_methods et) = Some f \<longrightarrow>
        bindField L n t structField data = (VPtr (fst (f v0 p)), outcome_of (snd (f v0 p)))) \<and>
     (t = TPtr i et \<and> (structField = VNil \<and> p = Zero et \<or> structField = VPtr p) \<and>
      UnmarshalParam (addr_methods et) = None \<and> UnmarshalText (addr_methods et) = Some g \<longrightarrow>
        bindField L n t structField data = (VPtr (fst (g v0 p)), outcome_of (snd (g v0 p)))) \<and>
     (Exported fd \<and> Kind t \<noteq> KPtr \<and> UnmarshalParam (addr_methods t) = Some f \<and>
      n = (if Tag_Get (Tag fd) tag = [] then Name fd else Tag_Get (Tag fd) tag) \<longrightarrow>
        bindFields L ((fd, t) # fs) (structField # vs) data tag
          = (if snd (f v0 structField) = None
             then (case bindFields L fs vs data tag of
                     (vs', r) \<Rightarrow> (fst (f v0 structField) # vs', r))
             else (fst (f v0 structField) # vs, outcome_of (snd (f v0 structField)))))"
proof -
  have a: "bindField L n t structField data
          = (fst (f v0 structField), outcome_of (snd (f v0 structField)))"
    if "Kind t \<noteq> KPtr" "UnmarshalParam (addr_methods t) = Some f"
    using that assms
    by (simp add: bindField_claimed unmarshalField_def unmarshalFieldNonPtr_Param)
  have b: "bindField L n t structField data
          = (fst (g v0 structField), outcome_of (snd (g v0 structField)))"
    if "Kind t \<noteq> KPtr" "UnmarshalParam (addr_methods t) = None"
      "UnmarshalText (addr_methods t) = Some g"
    using that assms
    by (simp add: bindField_claimed unmarshalField_def unmarshalFieldNonPtr_Text)
  have c: "bindField L n t structField data = (VPtr (fst (f v0 p)), outcome_of (snd (f v0 p)))"
    if "t = TPtr i et" "structField = VNil \<and> p = Zero et \<or> structField = VPtr p"
      "UnmarshalParam (addr_methods et) = Some f"
  proof -
    have "unmarshalField (Kind t) v0 t structField
        = (True, VPtr (fst (f v0 p)), outcome_of (snd (f v0 p)))"
      using that by (simp add: unmarshalField_def unmarshalFieldPtr_pointee
          unmarshalFieldNonPtr_Param)
    with assms show ?thesis by (rule bindField_claimed)
  qed
  have d: "bindField L n t structField data = (VPtr (fst (g v0 p)), outcome_of (snd (g v0 p)))"
    if "t = TPtr i et" "structField = VNil \<and> p = Zero et \<or> structField = VPtr p"
      "UnmarshalParam (addr_methods et) = None" "UnmarshalText (addr_methods et) = Some g"
  proof -
    have "unmarshalField (Kind t) v0 t structField
        = (True, VPtr (fst (g v0 p)), outcome_of (snd (g v0 p)))"
      using that by (simp add: unmarshalField_def unmarshalFieldPtr_pointee
          unmarshalFieldNonPtr_Text)
    with assms show ?thesis by (rule bindField_claimed)
  qed
  have e: "bindFields L ((fd, t) # fs) (structField # vs) data tag
          = (if snd (f v0 structField) = None
             then (case bindFields L fs vs data tag of
                     (vs', r) \<Rightarrow> (fst (f v0 structField) # vs', r))
             else (fst (f v0 structField) # vs, outcome_of (snd (f v0 structField))))"
    if "Exported fd" "Kind t \<noteq> KPtr" "UnmarshalParam (addr_methods t) = Some f"
      "n = (if Tag_Get (Tag fd) tag = [] then Name fd else Tag_Get (Tag fd) tag)"
  proof -
    from a[OF that(2,3)] that(4)
    have "bindField L (if Tag_Get (Tag fd) tag = [] then Name fd else Tag_Get (Tag fd) tag)
            t structField data
          = (fst (f v0 structField), outcome_of (snd (f v0 structField)))"
      by simp
    with that(1,3) show ?thesis
      by (cases "snd (f v0 structField)") (simp_all add: outcome_of_def Let_def)
  qed
  show ?thesis
  proof (intro conjI impI)
    assume "Kind t \<noteq> KPtr \<and> UnmarshalParam (addr_methods t) = Some f"
    then show "bindField L n t structField data
          = (fst (f v0 structField), outcome_of (snd (f v0 structField)))"
      using a by simp
  next
    assume "Kind t \<noteq> KPtr \<and> UnmarshalParam (addr_methods t) = None \<and>
      UnmarshalText (addr_methods t) = Some g"
    then show "bindField L n t structField data
          = (fst (g v0 structField), outcome_of (snd (g v0 structField)))"
      using b by simp
  next
    assume "t = TPtr i et \<and> (structField = VNil \<and> p = Zero et \<or> structField = VPtr p) \<and>
      UnmarshalParam (addr_methods et) = Some f"
    then show "bindField L n t structField data
          = (VPtr (fst (f v0 p)), outcome_of (snd (f v0 p)))"
      using c by metis
  next
    assume "t = TPtr i et \<and> (structField = VNil \<and> p = Zero et \<or> structField = VPtr p) \<and>
      UnmarshalParam (addr_methods et) = None \<and> UnmarshalText (addr_methods et) = Some g"
    then show "bindField L n t structField data
          = (VPtr (fst (g v0 p)), outcome_of (snd (g v0 p)))"
      using d by metis
  next
    assume "Exported fd \<and> Kind t \<noteq> KPtr \<and> UnmarshalParam (addr_methods t) = Some f \<and>
      n = (if Tag_Get (Tag fd) tag = [] then Name fd else Tag_Get (Tag fd) tag)"
    then show "bindFields L ((fd, t) # fs) (structField # vs) data tag
          = (if snd (f v0 structField) = None
             then (case bindFields L fs vs data tag of
                     (vs', r) \<Rightarrow> (fst (f v0 structField) # vs', r))
             else (fst (f v0 structField) # vs, outcome_of (snd (f v0 structField))))"
      using e by metis
  qed
qed

theorem custom_unmarshal_takes_precedence_witness:
  "bindField example_lib ''x'' counted (VInt 0) [(''x'', [''abc'', ''de''])] = (VInt 3, Ok) \<and>
   bindField example_lib ''x'' (TPtr plain counted) VNil [(''x'', [''abc'', ''de''])]
     = (VPtr (VInt 3), Ok)"
proof -
  define d :: data where "d = [(''x'', [''abc'', ''de''])]"
  define f :: "rat unmarshaler" where "f = (\<lambda>s v. (VInt (int (length s)), None))"
  have l: "lookupInput example_lib d ''x'' = Some (''abc'' # [''de''])"
    by (simp add: lookupInput_def d_def)
  have k: "Kind counted \<noteq> KPtr" by (simp add: counted_def)
  have m: "UnmarshalParam (addr_methods counted) = Some f"
    by (simp add: counted_def addr_methods_def f_def)
  have z: "Zero counted = VInt 0" by (simp add: counted_def)
  from custom_unmarshal_takes_precedence[OF l, where t = counted and f = f
      and structField = "VInt 0"] k m
  have 1: "bindField example_lib ''x'' counted (VInt 0) d = (VInt 3, Ok)"
    by (simp add: f_def outcome_of_def)
  from custom_unmarshal_takes_precedence[OF l, where t = "TPtr plain counted" and f = f
      and structField = VNil and i = plain and et = counted and p = "VInt 0"] m z
  have 2: "bindField example_lib ''x'' (TPtr plain counted) VNil d = (VPtr (VInt 3), Ok)"
    by (simp add: f_def outcome_of_def)
  from 1 2 show ?thesis by (simp add: d_def)
qed

subsection \<open>Looking a field up in the source map\<close>

lemma lookupInput_None_iff:
  "lookupInput L data n = None \<longleftrightarrow>
     map_of data n = None \<and> (\<forall>(k, v) \<in> set data. \<not> EqualFold L k n)"
proof (cases "map_of data n")
  case None
  show ?thesis
  proof (cases "find (\<lambda>(k, v). EqualFold L k n) data")
    case f: None
    from f have "\<forall>(k, v) \<in> set data. \<not> EqualFold L k n"
      by (auto simp: find_None_iff')
    with None f show ?thesis
      by (simp add: lookupInput_def)
  next
    case (Some kv)
    from find_SomeD[OF Some] have "\<not> (\<forall>(k, v) \<in> set data. \<not> EqualFold L k n)"
      by blast
    with None Some show ?thesis
      by (simp add: lookupInput_def split: prod.splits)
  qed
next
  case (Some x)
  then show ?thesis by (simp add: lookupInput_def)
qed

lemma bindFields_named:
  assumes "Exported fd"
    and "\<not> (Tag_Get (Tag fd) tag = [] \<and> UnmarshalParam (addr_methods t) = None \<and> Kind t = KStruct)"
  shows "bindFields L ((fd, t) # fs) (structField # vs) data tag =
     (case bindField L (if Tag_Get (Tag fd) tag = [] then Name fd else Tag_Get (Tag fd) tag)
             t structField data of
        (field, Ok) \<Rightarrow>
          (case bindFields L fs vs data tag of (vs', r) \<Rightarrow> (field # vs', r))
      | (field, r) \<Rightarrow> (field # vs, r))"
  using assms
  by (cases "Tag_Get (Tag fd) tag = []"; cases "UnmarshalParam (addr_methods t)";
      cases "Kind t = KStruct"; simp add: Let_def)

text \<open>
  C3. The resolved name is looked up by exact match first: an entry under exactly that
  name is the one taken. Without one, the entries are searched for a key that is equal to
  the name under case folding, and the first such entry the iteration visits is taken.
  When there is none either, the field is skipped: it keeps its value, no error is
  returned, and the loop goes on with the next field. (This is for a field whose name is
  resolved: every settable field but an untagged struct without
  \<^verbatim>\<open>UnmarshalParam\<close>, into which the binder recurses.)
\<close>

theorem lookup_exact_then_case_insensitive:
  "(map_of data n = Some x \<longrightarrow> lookupInput L data n = Some x) \<and>
   (map_of data n = None \<longrightarrow>
      lookupInput L data n = map_option snd (find (\<lambda>(k, v). EqualFold L k n) data)) \<and>
   (lookupInput L data n = None \<longleftrightarrow>
      map_of data n = None \<and> (\<forall>(k, v) \<in> set data. \<not> EqualFold L k n)) \<and>
   (lookupInput L data n = None \<longrightarrow> bindField L n t structField data = (structField, Ok)) \<and>
   (Exported fd \<and>
    \<not> (Tag_Get (Tag fd) tag = [] \<and> UnmarshalParam (addr_methods t) = None \<and> Kind t = KStruct) \<and>
    n = (if Tag_Get (Tag fd) tag = [] then Name fd else Tag_Get (Tag fd) tag) \<and>
    lookupInput L data n = None \<longrightarrow>
      bindFields L ((fd, t) # fs) (structField # vs) data tag
        = (case bindFields L fs vs data tag of (vs', r) \<Rightarrow> (structField # vs', r)))"
proof (intro conjI impI)
  assume "map_of data n = Some x"
  then show "lookupInput L data n = Some x" by (simp add: lookupInput_def)
next
  assume "map_of data n = None"
  then show "lookupInput L data n = map_option snd (find (\<lambda>(k, v). EqualFold L k n) data)"
    by (simp add: lookupInput_def split: option.splits prod.splits)
next
  show "lookupInput L data n = None \<longleftrightarrow>
      map_of data n = None \<and> (\<forall>(k, v) \<in> set data. \<not> EqualFold L k n)"
    by (rule lookupInput_None_iff)
next
  assume "lookupInput L data n = None"
  then show "bindField L n t structField data = (structField, Ok)"
    by (simp add: bindField_def)
next
  assume h: "Exported fd \<and>
    \<not> (Tag_Get (Tag fd) tag = [] \<and> UnmarshalParam (addr_methods t) = None \<and> Kind t = KStruct) \<and>
    n = (if Tag_Get (Tag fd) tag = [] then Name fd else Tag_Get (Tag fd) tag) \<and>
    lookupInput L data n = None"
  then have "lookupInput L data
      (if Tag_Get (Tag fd) tag = [] then Name fd else Tag_Get (Tag fd) tag) = None"
    by metis
  then have bf: "bindField L (if Tag_Get (Tag fd) tag = [] then Name fd else Tag_Get (Tag fd) tag)
      t structField data = (structField, Ok)"
    unfolding bindField_def by simp
  from h have ex: "Exported fd"
    and nr: "\<not> (Tag_Get (Tag fd) tag = [] \<and> UnmarshalParam (addr_methods t) = None \<and> Kind t = KStruct)"
    by blast+
  show "bindFields L ((fd, t) # fs) (structField # vs) data tag
        = (case bindFields L fs vs data tag of (vs', r) \<Rightarrow> (structField # vs', r))"
    unfolding bindFields_named[OF ex nr] bf by simp
qed

theorem lookup_exact_then_case_insensitive_witness:
  "lookupInput example_lib [(''NAME'', [''al'']), (''name'', [''bob''])] ''name'' = Some [''bob''] \<and>
   lookupInput example_lib [(''Name'', [''bob''])] ''name'' = Some [''bob''] \<and>
   bindFields example_lib [fld ''Name'' [(''query'', ''name'')] (basic KString)] [VString ''old'']
     [(''Name'', [''bob''])] ''query'' = ([VString ''bob''], Ok) \<and>
   bindFields example_lib
     [fld ''Age'' [(''query'', ''age'')] (basic KInt),
      fld ''Name'' [(''query'', ''name'')] (basic KString)]
     [VInt 7, VString ''old'']
     [(''Name'', [''bob''])] ''query'' = ([VInt 7, VString ''bob''], Ok)"
proof -
  define d1 :: data where "d1 = [(''NAME'', [''al'']), (''name'', [''bob''])]"
  define d2 :: data where "d2 = [(''Name'', [''bob''])]"
  define age where "age = \<lparr>Name = ''Age'', Tag = [(''query'', ''age'')], Exported = True\<rparr>"
  define q where "q = ''query''"
  have 1: "lookupInput example_lib d1 ''name'' = Some [''bob'']"
    using lookup_exact_then_case_insensitive[where data = d1 and n = "''name''"
        and x = "[''bob'']" and L = example_lib]
    by (simp add: d1_def)
  have 2: "lookupInput example_lib d2 ''name'' = Some [''bob'']"
    using lookup_exact_then_case_insensitive[where data = d2 and n = "''name''"
        and L = example_lib]
    by (simp add: d2_def example_lib_def ascii_EqualFold_def fold_code_def)
  have 3: "bindFields example_lib [fld ''Name'' [(''query'', ''name'')] (basic KString)]
      [VString ''old''] d2 q = ([VString ''bob''], Ok)"
    by (simp add: d2_def q_def run_defs)
  have l: "lookupInput example_lib d2 ''age'' = None"
    by (simp add: d2_def lookupInput_def example_lib_def ascii_EqualFold_def fold_code_def)
  have "bindFields example_lib
     ((age, basic KInt) # [fld ''Name'' [(''query'', ''name'')] (basic KString)])
     (VInt 7 # [VString ''old'']) d2 q
     = (case bindFields example_lib [fld ''Name'' [(''query'', ''name'')] (basic KString)]
              [VString ''old''] d2 q of (vs', r) \<Rightarrow> (VInt 7 # vs', r))"
    using lookup_exact_then_case_insensitive[where data = d2 and n = "''age''"
        and L = example_lib and fd = age and tag = q and t = "basic KInt"
        and structField = "VInt 7"
        and fs = "[fld ''Name'' [(''query'', ''name'')] (basic KString)]"
        and vs = "[VString ''old'']"] l
    by (simp add: age_def q_def Tag_Get_def)
  with 3 have 4: "bindFields example_lib
     ((age, basic KInt) # [fld ''Name'' [(''query'', ''name'')] (basic KString)])
     (VInt 7 # [VString ''old'']) d2 q = ([VInt 7, VString ''bob''], Ok)"
    by simp
  from 1 2 3 4 show ?thesis
    by (simp add: d1_def d2_def q_def age_def fld_def)
qed

subsection \<open>Fields of slice kind\<close>

lemma bindField_unclaimed_slice:
  assumes "lookupInput L data n = Some (v0 # rest)"
    and "unmarshalField KSlice v0 (TSlice i et) structField = (False, field, Ok)"
  shows "bindField L n (TSlice i et) structField data =
     (case setSliceElems L et (v0 # rest) of
        (slice, Ok) \<Rightarrow> (VSlice slice, Ok)
      | (slice, r) \<Rightarrow> (field, r))"
  using assms by (simp add: bindField_def)

text \<open>
  C2. For a field of slice kind whose type has neither unmarshal method and whose matched
  entry is \<open>inputValue\<close>: if the coercion of the element at index \<open>j\<close> returns the
  error \<open>e\<close> and the coercions of all elements before it succeed, the binder returns
  \<open>e\<close> at once, and the field, like every later field, keeps the value it had: the
  slice that was being built is not assigned.
\<close>

theorem slice_element_failure_aborts:
  assumes "UnmarshalParam (addr_methods (TSlice i et)) = None"
    and "UnmarshalText (addr_methods (TSlice i et)) = None"
    and "lookupInput L data n = Some inputValue"
    and "j < length inputValue"
    and "\<forall>k < j. snd (setWithProperType L (Kind et) (inputValue ! k) et (Zero et)) = Ok"
    and "snd (setWithProperType L (Kind et) (inputValue ! j) et (Zero et)) = Err e"
  shows "bindField L n (TSlice i et) structField data = (structField, Err e) \<and>
    (Exported fd \<and> n = (if Tag_Get (Tag fd) tag = [] then Name fd else Tag_Get (Tag fd) tag) \<longrightarrow>
       bindFields L ((fd, TSlice i et) # fs) (structField # vs) data tag
         = (structField # vs, Err e))"
proof -
  from assms(4) obtain v0 rest where iv: "inputValue = v0 # rest"
    by (cases inputValue) auto
  have u: "unmarshalField KSlice v0 (TSlice i et) structField = (False, structField, Ok)"
    using assms(1,2) by (simp add: unmarshalField_unclaimed)
  have "snd (setSliceElems L et inputValue) = Err e"
    using assms(4,5,6) by (intro setSliceElems_first_failure[of j]) auto
  then obtain sl where "setSliceElems L et (v0 # rest) = (sl, Err e)"
    unfolding iv by (cases "setSliceElems L et (v0 # rest)") auto
  with bindField_unclaimed_slice[OF assms(3)[unfolded iv] u]
  have b: "bindField L n (TSlice i et) structField data = (structField, Err e)"
    by simp
  have "bindFields L ((fd, TSlice i et) # fs) (structField # vs) data tag
         = (structField # vs, Err e)"
    if "Exported fd" "n = (if Tag_Get (Tag fd) tag = [] then Name fd else Tag_Get (Tag fd) tag)"
  proof -
    have nr: "\<not> (Tag_Get (Tag fd) tag = [] \<and> UnmarshalParam (addr_methods (TSlice i et)) = None
        \<and> Kind (TSlice i et) = KStruct)"
      by simp
    show ?thesis
      unfolding bindFields_named[OF that(1) nr] b[unfolded that(2)] by simp
  qed
  with b show ?thesis by blast
qed

theorem slice_element_failure_aborts_witness:
  "bindFields example_lib
     [fld ''X'' [(''form'', ''x'')] (slice_of (basic KInt)), fld ''Y'' [(''form'', ''y'')] (basic KInt)]
     [VSlice [VInt 9], VInt 0]
     [(''x'', [''1'', ''bad'', ''3'']), (''y'', [''5''])] ''form''
   = ([VSlice [VInt 9], VInt 0], Err (NumError ''ParseInt'' ''bad'' ErrSyntax))"
proof -
  define d :: data where "d = [(''x'', [''1'', ''bad'', ''3'']), (''y'', [''5''])]"
  define fd where "fd = \<lparr>Name = ''X'', Tag = [(''form'', ''x'')], Exported = True\<rparr>"
  define q where "q = ''form''"
  define e where "e = NumError ''ParseInt'' ''bad'' ErrSyntax"
  define int_t :: "rat gotype" where "int_t = TBasic plain KInt"
  have 1: "UnmarshalParam (addr_methods (TSlice plain int_t)) = None"
    "UnmarshalText (addr_methods (TSlice plain int_t)) = None"
    by (simp_all add: addr_methods_def plain_def)
  have 2: "lookupInput example_lib d ''x'' = Some [''1'', ''bad'', ''3'']"
    by (simp add: lookupInput_def d_def)
  have 3: "(1::nat) < length [''1'', ''bad'', ''3'']" by simp
  have c0: "setWithProperType example_lib (Kind int_t) ''1'' int_t (Zero int_t) = (VInt 1, Ok)"
    by (simp add: int_t_def run_defs)
  have 4: "\<forall>k < (1::nat). snd (setWithProperType example_lib (Kind int_t)
      ([''1'', ''bad'', ''3''] ! k) int_t (Zero int_t)) = Ok"
    using c0 by simp
  have 5: "snd (setWithProperType example_lib (Kind int_t)
      ([''1'', ''bad'', ''3''] ! 1) int_t (Zero int_t)) = Err e"
    by (simp add: int_t_def e_def run_defs)
  from slice_element_failure_aborts[OF 1 2 3 4 5, where fd = fd and tag = q
      and structField = "VSlice [VInt 9]" and vs = "[VInt 0]"
      and fs = "[fld ''Y'' [(''form'', ''y'')] (basic KInt)]"]
  have "bindFields example_lib
     ((fd, TSlice plain int_t) # [fld ''Y'' [(''form'', ''y'')] (basic KInt)])
     (VSlice [VInt 9] # [VInt 0]) d q = (VSlice [VInt 9] # [VInt 0], Err e)"
    by (simp add: fd_def q_def Tag_Get_def)
  then show ?thesis
    by (simp add: fd_def q_def d_def e_def int_t_def fld_def slice_of_def basic_def)
qed

text \<open>
  C1, as stated, fails for a slice field whose matched entry holds exactly one value: the
  binder builds a slice of one element, where coercing the value directly into the
  slice-kind field would fail with "unknown type".
\<close>

theorem single_value_slice_counterexample:
  "bindField example_lib ''x'' (slice_of (basic KInt)) VNil [(''x'', [''1''])]
     = (VSlice [VInt 1], Ok) \<and>
   setWithProperType example_lib KSlice ''1'' (slice_of (basic KInt)) VNil
     = (VNil, Err ErrUnknownType) \<and>
   bindField example_lib ''x'' (slice_of (basic KInt)) VNil [(''x'', [''1''])]
     \<noteq> setWithProperType example_lib (Kind (slice_of (basic KInt))) ''1''
         (slice_of (basic KInt)) VNil"
  by (simp add: run_defs)

text \<open>
  C1, amended. For a matched field that the custom-unmarshal dispatch does not claim: if
  the field is of slice kind (its entry holds at least one value), a slice with one
  element per value of the entry is built, each element coerced from its value by the
  coercion engine, and assigned to the field (when every coercion succeeds; C2 is the
  other case); if the field is of any other kind, the first value is coerced directly
  into the field.
\<close>

theorem unclaimed_field_binding:
  assumes "lookupInput L data n = Some (v0 # rest)"
    and "unmarshalField (Kind t) v0 t structField = (False, field, Ok)"
  shows
    "(t = TSlice i et \<and>
      (\<forall>s \<in> set (v0 # rest). snd (setWithProperType L (Kind et) s et (Zero et)) = Ok) \<longrightarrow>
        bindField L n t structField data
          = (VSlice (map (\<lambda>s. fst (setWithProperType L (Kind et) s et (Zero et))) (v0 # rest)),
             Ok)) \<and>
     (Kind t \<noteq> KSlice \<longrightarrow>
        bindField L n t structField data = setWithProperType L (Kind t) v0 t field)"
proof (intro conjI impI)
  assume h: "t = TSlice i et \<and>
      (\<forall>s \<in> set (v0 # rest). snd (setWithProperType L (Kind et) s et (Zero et)) = Ok)"
  then have u: "unmarshalField KSlice v0 (TSlice i et) structField = (False, field, Ok)"
    using assms(2) by simp
  from h have "setSliceElems L et (v0 # rest)
      = (map (\<lambda>s. fst (setWithProperType L (Kind et) s et (Zero et))) (v0 # rest), Ok)"
    by (intro setSliceElems_all_Ok) blast
  with bindField_unclaimed_slice[OF assms(1)[unfolded] u] h
  show "bindField L n t structField data
          = (VSlice (map (\<lambda>s. fst (setWithProperType L (Kind et) s et (Zero et))) (v0 # rest)),
             Ok)"
    by simp
next
  assume "Kind t \<noteq> KSlice"
  with assms show "bindField L n t structField data = setWithProperType L (Kind t) v0 t field"
    by (simp add: bindField_unclaimed_scalar)
qed

theorem unclaimed_field_binding_witness:
  "bindField example_lib ''x'' (slice_of (basic KInt)) (VSlice [VInt 9])
     [(''x'', [''1'', ''2'', ''3''])] = (VSlice [VInt 1, VInt 2, VInt 3], Ok) \<and>
   bindField example_lib ''y'' (basic KInt) (VInt 9) [(''y'', [''4'', ''5''])] = (VInt 4, Ok)"
proof -
  define d :: data where "d = [(''x'', [''1'', ''2'', ''3''])]"
  define d' :: data where "d' = [(''y'', [''4'', ''5''])]"
  define int_t :: "rat gotype" where "int_t = TBasic plain KInt"
  have l: "lookupInput example_lib d ''x'' = Some (''1'' # [''2'', ''3''])"
    by (simp add: lookupInput_def d_def)
  have u: "unmarshalField (Kind (TSlice plain int_t)) ''1'' (TSlice plain int_t) (VSlice [VInt 9])
      = (False, VSlice [VInt 9], Ok)"
    by (simp add: unmarshalField_def unmarshalFieldNonPtr_def addr_methods_def plain_def)
  have c: "setWithProperType example_lib (Kind int_t) ''1'' int_t (Zero int_t) = (VInt 1, Ok)"
    "setWithProperType example_lib (Kind int_t) ''2'' int_t (Zero int_t) = (VInt 2, Ok)"
    "setWithProperType example_lib (Kind int_t) ''3'' int_t (Zero int_t) = (VInt 3, Ok)"
    by (simp_all add: int_t_def run_defs)
  from unclaimed_field_binding[OF l u, where i = plain and et = int_t] c
  have 1: "bindField example_lib ''x'' (TSlice plain int_t) (VSlice [VInt 9]) d
      = (VSlice [VInt 1, VInt 2, VInt 3], Ok)"
    by simp
  have l': "lookupInput example_lib d' ''y'' = Some (''4'' # [''5''])"
    by (simp add: lookupInput_def d'_def)
  have u': "unmarshalField (Kind int_t) ''4'' int_t (VInt 9) = (False, VInt 9, Ok)"
    by (simp add: int_t_def unmarshalField_def unmarshalFieldNonPtr_def addr_methods_def plain_def)
  have c': "setWithProperType example_lib (Kind int_t) ''4'' int_t (VInt 9) = (VInt 4, Ok)"
    by (simp add: int_t_def run_defs)
  from unclaimed_field_binding[OF l' u'] c'
  have 2: "bindField example_lib ''y'' int_t (VInt 9) d' = (VInt 4, Ok)"
    by (simp add: int_t_def)
  from 1 2 show ?thesis
    by (simp add: d_def d'_def int_t_def slice_of_def basic_def)
qed

subsection \<open>Unsupported content types\<close>

text \<open>
  C7, as stated, fails in three ways. A request whose content length is -1 (unknown) has a
  nonzero content length, yet its body and content type are not looked at: the query
  parameters are bound and the call succeeds. A request without a content type is decoded
  as JSON. And when the body cannot be read, that error is returned before the content
  type is looked at.
\<close>

theorem unsupported_media_type_counterexample:
  "Bind example_lib
     (Some (struct [fld ''Q'' [(''query'', ''q'')] (basic KString)], VStruct [VString []]))
     \<lparr>ContentLength = - 1, HeaderContentType = ''application/octet-stream'',
      Body = Inr ''hello'', FormParams = Inr [], QueryParams = [(''q'', [''hi''])],
      ParamNames = [], ParamValues = []\<rparr>
     = (Some (struct [fld ''Q'' [(''query'', ''q'')] (basic KString)], VStruct [VString ''hi'']),
        Ok) \<and>
   Bind example_lib
     (Some (struct [fld ''Q'' [(''query'', ''q'')] (basic KString)], VStruct [VString []]))
     \<lparr>ContentLength = 5, HeaderContentType = [],
      Body = Inr ''hello'', FormParams = Inr [], QueryParams = [(''q'', [''hi''])],
      ParamNames = [], ParamValues = []\<rparr>
     = (Some (struct [fld ''Q'' [(''query'', ''q'')] (basic KString)], VStruct [VString []]),
        Err (HTTPError 400 (Some (UserError ''json'')))) \<and>
   Bind example_lib
     (Some (struct [fld ''Q'' [(''query'', ''q'')] (basic KString)], VStruct [VString []]))
     \<lparr>ContentLength = 5, HeaderContentType = ''application/octet-stream'',
      Body = Inl (UserError ''unexpected EOF''), FormParams = Inr [],
      QueryParams = [(''q'', [''hi''])], ParamNames = [], ParamValues = []\<rparr>
     = (Some (struct [fld ''Q'' [(''query'', ''q'')] (basic KString)], VStruct [VString []]),
        Err (ReadError (UserError ''unexpected EOF'')))"
  by (simp add: Bind_def bindParams_def HasPrefix_def MIMEApplicationJSON_def
      StatusBadRequest_def run_defs)

text \<open>
  C7, amended. For every request with a positive content length whose body can be read
  and whose content type is not empty and has none of the JSON, XML, text/xml, form and
  multipart-form types as a prefix, \<open>Bind\<close> returns the unsupported-media-type failure
  (HTTP 415) and leaves the target as it was; the query and path parameters play no part
  in the result.
\<close>

theorem unsupported_media_type:
  assumes "ContentLength req > 0" and "Body req = Inr body"
    and "HeaderContentType req \<noteq> []"
    and "\<not> HasPrefix (HeaderContentType req) MIMEApplicationJSON"
    and "\<not> HasPrefix (HeaderContentType req) MIMEApplicationXML"
    and "\<not> HasPrefix (HeaderContentType req) MIMETextXML"
    and "\<not> HasPrefix (HeaderContentType req) MIMEApplicationForm"
    and "\<not> HasPrefix (HeaderContentType req) MIMEMultipartForm"
  shows "Bind L i req = (i, Err ErrUnsupportedMediaType) \<and>
    ErrUnsupportedMediaType = HTTPError 415 None \<and>
    Bind L i (req\<lparr>QueryParams := q, ParamNames := names, ParamValues := vals\<rparr>) = Bind L i req"
  using assms by (simp add: Bind_def ErrUnsupportedMediaType_def)

theorem unsupported_media_type_witness:
  "Bind example_lib
     (Some (struct [fld ''Q'' [(''query'', ''q'')] (basic KString)], VStruct [VString []]))
     \<lparr>ContentLength = 5, HeaderContentType = ''application/octet-stream'',
      Body = Inr ''hello'', FormParams = Inr [], QueryParams = [(''q'', [''hi''])],
      ParamNames = [], ParamValues = []\<rparr>
     = (Some (struct [fld ''Q'' [(''query'', ''q'')] (basic KString)], VStruct [VString []]),
        Err (HTTPError 415 None))"
proof -
  define req where "req = \<lparr>ContentLength = 5, HeaderContentType = ''application/octet-stream'',
      Body = Inr ''hello'', FormParams = Inr [], QueryParams = [(''q'', [''hi''])],
      ParamNames = [], ParamValues = []\<rparr>"
  have 1: "ContentLength req > 0" "Body req = Inr ''hello''" "HeaderContentType req \<noteq> []"
    by (simp_all add: req_def)
  have 2: "\<not> HasPrefix (HeaderContentType req) MIMEApplicationJSON"
    "\<not> HasPrefix (HeaderContentType req) MIMEApplicationXML"
    "\<not> HasPrefix (HeaderContentType req) MIMETextXML"
    "\<not> HasPrefix (HeaderContentType req) MIMEApplicationForm"
    "\<not> HasPrefix (HeaderContentType req) MIMEMultipartForm"
    by (simp_all add: req_def HasPrefix_def MIMEApplicationJSON_def MIMEApplicationXML_def
        MIMETextXML_def MIMEApplicationForm_def MIMEMultipartForm_def)
  from unsupported_media_type[OF 1 2, of example_lib
      "Some (struct [fld ''Q'' [(''query'', ''q'')] (basic KString)], VStruct [VString []])"]
  show ?thesis
    by (simp add: req_def)
qed

end
